theory Spec2Isabelle
  imports Complex_Main "HOL-Library.Multiset"
begin

section \<open>Errors\<close>

text \<open>
  The script has no exception handler: every exception raised by the interpreter or by a
  library call aborts the run. Each one the model can reach is a value of \<open>error\<close>, and
  every fallible function returns \<open>error + 'a\<close> with \<open>Inl\<close> for the exception.
\<close>

datatype error =
    ValueError_num_samples   \<comment> \<open>RandomSampler over an empty dataset\<close>
  | ValueError_batch_size    \<comment> \<open>BatchSampler with a batch size that is not positive\<close>
  | ValueError_target_size   \<comment> \<open>cross_entropy: rows of the input and labels differ in number\<close>
  | IndexError               \<comment> \<open>an index or a class label out of range\<close>
  | ZeroDivisionError        \<comment> \<open>integer modulo by zero\<close>
  | RuntimeError_shape       \<comment> \<open>tensor sizes that neither match nor broadcast\<close>
  | RuntimeError_cat         \<comment> \<open>torch.cat of an empty list of tensors\<close>
  | ScorerError              \<comment> \<open>the external evaluator failed\<close>

text \<open>A \<open>for\<close> loop or comprehension over a list whose body may raise.\<close>

fun traverse :: "('a \<Rightarrow> error + 'b) \<Rightarrow> 'a list \<Rightarrow> error + 'b list" where
  "traverse f [] = Inr []"
| "traverse f (x # xs) =
     (case f x of
        Inl e \<Rightarrow> Inl e
      | Inr y \<Rightarrow> (case traverse f xs of Inl e \<Rightarrow> Inl e | Inr ys \<Rightarrow> Inr (y # ys)))"

section \<open>The dataset: \<open>SimCSEDataset\<close>\<close>

text \<open>
  \<open>str.strip()\<close> removes the whitespace at both ends. Which characters are whitespace is
  the interpreter's table; it is the parameter \<open>isspace\<close>, and a line is a list of
  characters of any type \<open>'c\<close>.
\<close>

definition strip :: "('c \<Rightarrow> bool) \<Rightarrow> 'c list \<Rightarrow> 'c list" where
  "strip isspace s = rev (dropWhile isspace (rev (dropWhile isspace s)))"

text \<open>
  \<open>__post_init__\<close>: \<open>self.data = []\<close>, then the loop over the lines of the file; the
  second argument is \<open>self.data\<close> so far, the third the lines still to read.
\<close>

fun post_init :: "('c \<Rightarrow> bool) \<Rightarrow> 'c list list \<Rightarrow> 'c list list \<Rightarrow> 'c list list" where
  "post_init isspace data [] = data"
| "post_init isspace data (line # f) =
     (let line' = strip isspace line
      in if line' \<noteq> [] then post_init isspace (data @ [line']) f
         else post_init isspace data f)"

definition SimCSEDataset :: "('c \<Rightarrow> bool) \<Rightarrow> 'c list list \<Rightarrow> 'c list list" where
  "SimCSEDataset isspace f = post_init isspace [] f"

text \<open>\<open>__getitem__\<close> is Python's list indexing: a negative index counts from the end.\<close>

definition getitem :: "'a list \<Rightarrow> int \<Rightarrow> error + 'a" where
  "getitem data index =
     (let n = int (length data); j = (if index < 0 then n + index else index)
      in if 0 \<le> j \<and> j < n then Inr (data ! nat j) else Inl IndexError)"

definition len :: "'a list \<Rightarrow> int" where
  "len data = int (length data)"

section \<open>The batch loader: \<open>DataLoader\<close> with \<open>shuffle=True\<close>\<close>

text \<open>
  The batch sampler takes \<open>batch_size\<close> indices at a time from the index sequence of the
  epoch. When fewer than \<open>batch_size\<close> are left, they are yielded as a short batch, or
  dropped if \<open>drop_last\<close> is set.
\<close>

function batch_sampler :: "nat \<Rightarrow> bool \<Rightarrow> 'a list \<Rightarrow> 'a list list" where
  "batch_sampler B drop_last xs =
     (if B = 0 \<or> xs = [] then []
      else if length xs < B then (if drop_last then [] else [xs])
      else take B xs # batch_sampler B drop_last (drop B xs))"
  by pat_completeness auto
termination
  by (relation "measure (\<lambda>(B, d, xs). length xs)") auto

declare batch_sampler.simps [simp del]

record ('a, 'x) DataLoader =
  dataset :: "'a list"
  collate_fn :: "'a list \<Rightarrow> 'x"
  dl_batch_size :: nat
  drop_last :: bool

text \<open>
  The constructor builds a random sampler over the dataset, which refuses an empty one,
  and then a batch sampler, which refuses a batch size that is not positive.
\<close>

definition DataLoader ::
  "'a list \<Rightarrow> ('a list \<Rightarrow> 'x) \<Rightarrow> int \<Rightarrow> bool \<Rightarrow> error + ('a, 'x) DataLoader" where
  "DataLoader data collate bs dl =
     (if length data = 0 then Inl ValueError_num_samples
      else if bs \<le> 0 then Inl ValueError_batch_size
      else Inr \<lparr>dataset = data, collate_fn = collate, dl_batch_size = nat bs,
                drop_last = dl\<rparr>)"

text \<open>\<open>len(train_dataloader)\<close>: the number of batches of one epoch.\<close>

definition len_loader :: "('a, 'x) DataLoader \<Rightarrow> nat" where
  "len_loader ld =
     (if drop_last ld then length (dataset ld) div dl_batch_size ld
      else (length (dataset ld) + dl_batch_size ld - 1) div dl_batch_size ld)"

text \<open>
  One epoch of the loader. \<open>perm\<close> is the index sequence the random sampler drew for the
  epoch; the samples of each batch are fetched with \<open>__getitem__\<close>.
\<close>

definition loader_batches :: "('a, 'x) DataLoader \<Rightarrow> nat list \<Rightarrow> error + 'a list list" where
  "loader_batches ld perm =
     traverse (traverse (\<lambda>i. getitem (dataset ld) (int i)))
       (batch_sampler (dl_batch_size ld) (drop_last ld) perm)"

definition iter_loader :: "('a, 'x) DataLoader \<Rightarrow> nat list \<Rightarrow> error + 'x list" where
  "iter_loader ld perm =
     (case loader_batches ld perm of
        Inl e \<Rightarrow> Inl e
      | Inr bs \<Rightarrow> Inr (map (collate_fn ld) bs))"

section \<open>Tensors\<close>

text \<open>
  A tensor of floating-point numbers is a nested list of reals: the model is the exact
  arithmetic the floating-point operations approximate, and has no infinities and no
  not-a-number. A matrix is the list of its rows.
\<close>

type_synonym vec = "real list"
type_synonym mat = "real list list"
type_synonym tensor3 = "real list list list"

text \<open>\<open>t.unsqueeze(0)\<close> and \<open>t.unsqueeze(1)\<close> on a tensor of two dimensions.\<close>

definition unsqueeze0 :: "'a list \<Rightarrow> 'a list list" where
  "unsqueeze0 t = [t]"

definition unsqueeze1 :: "'a list \<Rightarrow> 'a list list" where
  "unsqueeze1 t = map (\<lambda>r. [r]) t"

text \<open>
  Broadcasting along one dimension: sizes that are equal are paired off, a size of one is
  repeated along the other operand, and anything else is an error.
\<close>

definition broadcast_zip :: "'a list \<Rightarrow> 'b list \<Rightarrow> error + ('a \<times> 'b) list" where
  "broadcast_zip xs ys =
     (if length xs = length ys then Inr (zip xs ys)
      else if length xs = 1 then Inr (map (\<lambda>y. (xs ! 0, y)) ys)
      else if length ys = 1 then Inr (map (\<lambda>x. (x, ys ! 0)) xs)
      else Inl RuntimeError_shape)"

definition dot :: "vec \<Rightarrow> vec \<Rightarrow> real" where
  "dot u v = sum_list (map2 (*) u v)"

definition l2_norm :: "vec \<Rightarrow> real" where
  "l2_norm u = sqrt (sum_list (map (\<lambda>a. a * a) u))"

text \<open>The default \<open>eps\<close> of \<open>F.cosine_similarity\<close>.\<close>

definition cosine_eps :: real where
  "cosine_eps = 1 / 10 ^ 8"

text \<open>The cosine similarity of two vectors, each norm bounded below by \<open>eps\<close>.\<close>

definition cosine :: "vec \<Rightarrow> vec \<Rightarrow> real" where
  "cosine u v = dot u v / (max (l2_norm u) cosine_eps * max (l2_norm v) cosine_eps)"

text \<open>
  \<open>F.cosine_similarity(x1, x2, dim=-1)\<close> on tensors of three dimensions: the operands are
  broadcast against each other in every dimension and the last one is reduced.
\<close>

definition cosine_similarity :: "tensor3 \<Rightarrow> tensor3 \<Rightarrow> error + mat" where
  "cosine_similarity x1 x2 =
     (case broadcast_zip x1 x2 of
        Inl e \<Rightarrow> Inl e
      | Inr rows \<Rightarrow>
          traverse (\<lambda>(a, b).
            case broadcast_zip a b of
              Inl e \<Rightarrow> Inl e
            | Inr cols \<Rightarrow>
                traverse (\<lambda>(u, v).
                  case broadcast_zip u v of
                    Inl e \<Rightarrow> Inl e
                  | Inr ps \<Rightarrow> Inr (cosine (map fst ps) (map snd ps))) cols) rows)"

text \<open>\<open>torch.arange(n)\<close>.\<close>

definition arange :: "int \<Rightarrow> nat list" where
  "arange n = [0..<nat n]"

definition softmax :: "vec \<Rightarrow> nat \<Rightarrow> real" where
  "softmax row k = exp (row ! k) / sum_list (map exp row)"

text \<open>The categorical cross-entropy of a row of logits against a class label.\<close>

definition categorical_cross_entropy :: "vec \<Rightarrow> nat \<Rightarrow> real" where
  "categorical_cross_entropy row t = - ln (softmax row t)"

text \<open>
  \<open>F.cross_entropy(input, target)\<close> with its default mean reduction: one label per row of
  the input, each label a column index of its row.
\<close>

definition cross_entropy :: "mat \<Rightarrow> nat list \<Rightarrow> error + real" where
  "cross_entropy input target =
     (if length input \<noteq> length target then Inl ValueError_target_size
      else if list_ex (\<lambda>(row, t). length row \<le> t) (zip input target) then Inl IndexError
      else Inr (sum_list (map (\<lambda>(row, t). categorical_cross_entropy row t) (zip input target))
                / real (length input)))"

section \<open>Configuration\<close>

record Args =
  batch_size :: int
  epochs :: int
  temperature :: real
  max_seq_len :: int
  eval_logging_interval :: int

section \<open>The contrastive objective\<close>

text \<open>
  The similarity matrix of a training step: \<open>F.cosine_similarity(emb1.unsqueeze(1),
  emb2.unsqueeze(0), dim=-1)\<close>, divided by the temperature.
\<close>

definition sim_matrix :: "Args \<Rightarrow> mat \<Rightarrow> mat \<Rightarrow> error + mat" where
  "sim_matrix args emb1 emb2 =
     (case cosine_similarity (unsqueeze1 emb1) (unsqueeze0 emb2) of
        Inl e \<Rightarrow> Inl e
      | Inr sim \<Rightarrow> Inr (map (map (\<lambda>s. s / temperature args)) sim))"

definition labels :: "Args \<Rightarrow> nat list" where
  "labels args = arange (batch_size args)"

definition loss :: "Args \<Rightarrow> mat \<Rightarrow> mat \<Rightarrow> error + real" where
  "loss args emb1 emb2 =
     (case sim_matrix args emb1 emb2 of
        Inl e \<Rightarrow> Inl e
      | Inr sim \<Rightarrow> cross_entropy sim (labels args))"

section \<open>The encoder wrapper: \<open>SimCSEModel\<close>\<close>

text \<open>
  The pretrained encoder is an external collaborator: \<open>backbone\<close> is its
  \<open>last_hidden_state\<close> (batch, sequence position, hidden unit) as a function of the mode
  of the module (training or evaluation), of the dropout masks drawn for the call
  (named by a number) and of the tokenized inputs. \<open>dense_weight\<close> (one row for each
  output unit) and \<open>dense_bias\<close> are the parameters of \<open>self.dense\<close>, and \<open>self.activation\<close>
  is \<open>Tanh\<close>.
\<close>

record 'x SimCSEModel =
  backbone :: "bool \<Rightarrow> nat \<Rightarrow> 'x \<Rightarrow> tensor3"
  hidden_size :: nat
  dense_weight :: mat
  dense_bias :: vec

text \<open>
  \<open>__init__\<close> makes \<open>self.dense\<close> a linear layer from \<open>hidden_size\<close> to \<open>hidden_size\<close>
  units: its parameters have this shape.
\<close>

definition dense_shape :: "'x SimCSEModel \<Rightarrow> bool" where
  "dense_shape m \<longleftrightarrow>
     length (dense_weight m) = hidden_size m
     \<and> list_all (\<lambda>w. length w = hidden_size m) (dense_weight m)
     \<and> length (dense_bias m) = hidden_size m"

text \<open>A linear layer applied to the rows of a matrix.\<close>

definition Linear :: "nat \<Rightarrow> mat \<Rightarrow> vec \<Rightarrow> mat \<Rightarrow> error + mat" where
  "Linear in_features W b x =
     traverse (\<lambda>r. if length r = in_features
                   then Inr (map2 (\<lambda>w c. dot w r + c) W b)
                   else Inl RuntimeError_shape) x"

definition Tanh :: "mat \<Rightarrow> mat" where
  "Tanh x = map (map tanh) x"

text \<open>\<open>t[:, 0]\<close> on a tensor of three dimensions.\<close>

definition select_first :: "tensor3 \<Rightarrow> error + mat" where
  "select_first t = traverse (\<lambda>s. if s = [] then Inl IndexError else Inr (s ! 0)) t"

text \<open>
  \<open>forward\<close>. The arguments \<open>training\<close> and \<open>draw\<close> are the state the call reads: the mode
  of the module and the dropout masks.
\<close>

definition forward :: "'x SimCSEModel \<Rightarrow> bool \<Rightarrow> nat \<Rightarrow> 'x \<Rightarrow> bool \<Rightarrow> error + mat" where
  "forward m training draw x use_mlp =
     (case select_first (backbone m training draw x) of
        Inl e \<Rightarrow> Inl e
      | Inr emb \<Rightarrow>
          if use_mlp then
            (case Linear (hidden_size m) (dense_weight m) (dense_bias m) emb of
               Inl e \<Rightarrow> Inl e
             | Inr emb' \<Rightarrow> Inr (Tanh emb'))
          else Inr emb)"

section \<open>The training script: \<open>main\<close>\<close>

subsection \<open>External collaborators\<close>

text \<open>
  What the script calls and does not define. \<open>'x\<close> is the type of a tokenized batch and
  \<open>'o\<close> the state of the optimizer and of the learning-rate schedule.

  \<^item> \<open>tokenizer\<close>: the tokenizer with padding and truncation, given \<open>max_length\<close> or not.
  \<^item> \<open>pretrained\<close>: the module \<open>SimCSEModel(args.model_name)\<close> right after construction.
  \<^item> \<open>optimizer_init\<close>: the optimizer and the schedule, as constructed.
  \<^item> \<open>optimizer_step\<close>: \<open>zero_grad\<close>, \<open>backward\<close>, \<open>optimizer.step\<close> and
    \<open>lr_scheduler.step\<close> after the two forward passes over a batch whose dropout masks
    were the draws \<open>d\<close> and \<open>d + 1\<close>: the new optimizer state and the new parameters.
  \<^item> \<open>sts_dev\<close>: the evaluator \<open>sts.dev\<close>, which is given the embedding function.
  \<^item> \<open>randperm\<close>: the index sequence the random sampler draws for an epoch over \<open>n\<close>
    samples.
\<close>

record ('x, 'o) env =
  tokenizer :: "int option \<Rightarrow> string list \<Rightarrow> 'x"
  pretrained :: "'x SimCSEModel"
  optimizer_init :: 'o
  optimizer_step :: "'o \<Rightarrow> 'x SimCSEModel \<Rightarrow> nat \<Rightarrow> 'x \<Rightarrow> 'o \<times> 'x SimCSEModel"
  sts_dev :: "(string list \<Rightarrow> error + mat) \<Rightarrow> error + real"
  randperm :: "nat \<Rightarrow> nat \<Rightarrow> nat list"

text \<open>
  Whitespace, for the characters of a \<open>string\<close> (code points below 256): the
  characters for which \<open>str.isspace\<close> holds.
\<close>

definition isspace :: "char \<Rightarrow> bool" where
  "isspace c \<longleftrightarrow>
     (let n = (of_char c :: nat)
      in (9 \<le> n \<and> n \<le> 13) \<or> (28 \<le> n \<and> n \<le> 32) \<or> n = 133 \<or> n = 160)"

subsection \<open>State and outputs\<close>

text \<open>A value of a log record or of the best-metrics record.\<close>

datatype cell = PyInt int | PyFloat real | PyNone

text \<open>
  The calls the run makes that the claims are about, in the order it makes them, each
  with the loop counters and the state it was made in:
  \<^item> \<open>Scored epoch step training score\<close>: \<open>sts.dev\<close> was called while the mode of the
    module was \<open>training\<close>, and returned \<open>score\<close>;
  \<^item> \<open>Updated epoch step training\<close>: the gradient update of the step, after forward
    passes in mode \<open>training\<close>;
  \<^item> \<open>Saved epoch step best m\<close>: \<open>torch.save\<close> wrote the parameters \<open>m\<close> to the
    checkpoint file, when the best score was \<open>best\<close>.
  Steps are numbered from 1 within an epoch, as the script logs them; the evaluation
  before training is at epoch 0, step 0.
\<close>

datatype 'x event =
    Scored nat nat bool real
  | Updated nat nat bool
  | Saved nat nat real "'x SimCSEModel"

text \<open>
  The variables of \<open>main\<close> that change during the run. \<open>training\<close> is the mode of the
  module (\<open>model.train()\<close>, \<open>model.eval()\<close>), \<open>draws\<close> counts the dropout masks drawn,
  \<open>model_pt\<close> is what the run has written to the checkpoint file, if anything.
\<close>

record ('x, 'o) state =
  model :: "'x SimCSEModel"
  training :: bool
  optimizer :: 'o
  draws :: nat
  best_stsb :: real
  best_step :: nat
  logs :: "(string \<times> cell) list list"
  model_pt :: "'x SimCSEModel option"
  trace :: "'x event list"

text \<open>
  A data frame built from a list of dictionaries: the columns are the keys in the order
  they first occur, and a row has no value in the columns its dictionary lacks.
\<close>

record table =
  columns :: "string list"
  rows :: "cell option list list"

fun first_seen :: "'a list \<Rightarrow> 'a list \<Rightarrow> 'a list" where
  "first_seen acc [] = acc"
| "first_seen acc (k # ks) = first_seen (if k \<in> set acc then acc else acc @ [k]) ks"

definition DataFrame :: "(string \<times> cell) list list \<Rightarrow> table" where
  "DataFrame ds =
     (let cols = first_seen [] (concat (map (map fst) ds))
      in \<lparr>columns = cols, rows = map (\<lambda>d. map (map_of d) cols) ds\<rparr>)"

text \<open>What a completed run leaves: the last state and the files written at the end.\<close>

record ('x, 'o) outputs =
  final :: "('x, 'o) state"
  logs_csv :: table
  best_metrics_json :: "(string \<times> cell) list"

subsection \<open>The embedding function given to the evaluator\<close>

text \<open>\<open>chunked(texts, n)\<close>: lists of \<open>n\<close> elements, the last one possibly shorter.\<close>

definition chunked :: "'a list \<Rightarrow> nat \<Rightarrow> 'a list list" where
  "chunked xs n = batch_sampler n False xs"

text \<open>\<open>torch.cat(embs, dim=0)\<close> on matrices.\<close>

definition cat :: "mat list \<Rightarrow> error + mat" where
  "cat ts =
     (if ts = [] then Inl RuntimeError_cat
      else if \<not> list_all (\<lambda>r. length r = length (hd (concat ts))) (concat ts)
        then Inl RuntimeError_shape
      else Inr (concat ts))"

definition encode ::
  "('x, 'o) env \<Rightarrow> Args \<Rightarrow> 'x SimCSEModel \<Rightarrow> bool \<Rightarrow> nat \<Rightarrow> string list \<Rightarrow> error + mat" where
  "encode env args m mode d texts =
     (case traverse (\<lambda>text. forward m mode d (tokenizer env None text) False)
             (chunked texts (nat (batch_size args * 8))) of
        Inl e \<Rightarrow> Inl e
      | Inr embs \<Rightarrow> cat embs)"

subsection \<open>One evaluation\<close>

text \<open>The comparison with the best score so far, and what it triggers.\<close>

definition update_best ::
  "nat \<Rightarrow> nat \<Rightarrow> real \<Rightarrow> ('x, 'o) state \<Rightarrow> ('x, 'o) state" where
  "update_best epoch step stsb_score st =
     (if best_stsb st < stsb_score
      then st\<lparr>best_stsb := stsb_score,
              best_step := step + 1,
              model_pt := Some (model st),
              trace := trace st @ [Saved epoch (step + 1) stsb_score (model st)]\<rparr>
      else st)"

text \<open>
  The body of the \<open>if\<close> that closes a training step: \<open>model.eval()\<close>, the call of the
  evaluator, the comparison, the log record, and \<open>model.train()\<close>. \<open>l\<close> is the loss of
  the step.
\<close>

definition evaluate ::
  "('x, 'o) env \<Rightarrow> Args \<Rightarrow> nat \<Rightarrow> nat \<Rightarrow> real \<Rightarrow> ('x, 'o) state
     \<Rightarrow> error + ('x, 'o) state" where
  "evaluate env args epoch step l st =
     (let st1 = st\<lparr>training := False\<rparr>
      in case sts_dev env (encode env args (model st1) (training st1) (draws st1)) of
           Inl e \<Rightarrow> Inl e
         | Inr stsb_score \<Rightarrow>
             let st2 = st1\<lparr>trace := trace st1
                           @ [Scored epoch (step + 1) (training st1) stsb_score]\<rparr>;
                 st3 = update_best epoch step stsb_score st2;
                 st4 = st3\<lparr>logs := logs st3 @
                         [[(''epoch'', PyInt (int epoch)), (''step'', PyInt (int step + 1)),
                           (''loss'', PyFloat l), (''stsb'', PyFloat stsb_score)]]\<rparr>
             in Inr (st4\<lparr>training := True\<rparr>))"

subsection \<open>One training step\<close>

text \<open>
  The body of the inner loop, for the batch at index \<open>step\<close> (from 0) of the epoch; \<open>n\<close>
  is \<open>len(train_dataloader)\<close>.
\<close>

definition train_step ::
  "('x, 'o) env \<Rightarrow> Args \<Rightarrow> nat \<Rightarrow> nat \<Rightarrow> ('x, 'o) state \<Rightarrow> nat \<Rightarrow> 'x
     \<Rightarrow> error + ('x, 'o) state" where
  "train_step env args n epoch st step batch =
     (case forward (model st) (training st) (draws st) batch True of
        Inl e \<Rightarrow> Inl e
      | Inr emb1 \<Rightarrow>
     (case forward (model st) (training st) (draws st + 1) batch True of
        Inl e \<Rightarrow> Inl e
      | Inr emb2 \<Rightarrow>
     (case loss args emb1 emb2 of
        Inl e \<Rightarrow> Inl e
      | Inr l \<Rightarrow>
          let (opt, m) = optimizer_step env (optimizer st) (model st) (draws st) batch;
              st1 = st\<lparr>model := m, optimizer := opt, draws := draws st + 2,
                       trace := trace st @ [Updated epoch (step + 1) (training st)]\<rparr>
          in if eval_logging_interval args = 0 then Inl ZeroDivisionError
             else if (int step + 1) mod eval_logging_interval args = 0 \<or> step + 1 = n
               then evaluate env args epoch step l st1
             else Inr st1)))"

subsection \<open>The loops\<close>

fun run_steps ::
  "('x, 'o) env \<Rightarrow> Args \<Rightarrow> nat \<Rightarrow> nat \<Rightarrow> ('x, 'o) state \<Rightarrow> (nat \<times> 'x) list
     \<Rightarrow> error + ('x, 'o) state" where
  "run_steps env args n epoch st [] = Inr st"
| "run_steps env args n epoch st ((step, batch) # rest) =
     (case train_step env args n epoch st step batch of
        Inl e \<Rightarrow> Inl e
      | Inr st' \<Rightarrow> run_steps env args n epoch st' rest)"

text \<open>
  The outer loop over the epochs still to run. Each epoch starts with \<open>model.train()\<close>
  and a new pass over the loader.
\<close>

fun run_epochs ::
  "('x, 'o) env \<Rightarrow> Args \<Rightarrow> (string, 'x) DataLoader \<Rightarrow> ('x, 'o) state \<Rightarrow> nat list
     \<Rightarrow> error + ('x, 'o) state" where
  "run_epochs env args ld st [] = Inr st"
| "run_epochs env args ld st (epoch # rest) =
     (case iter_loader ld (randperm env epoch (length (dataset ld))) of
        Inl e \<Rightarrow> Inl e
      | Inr batches \<Rightarrow>
          (case run_steps env args (len_loader ld) epoch (st\<lparr>training := True\<rparr>)
                  (enumerate 0 batches) of
             Inl e \<Rightarrow> Inl e
           | Inr st' \<Rightarrow> run_epochs env args ld st' rest))"

subsection \<open>\<open>main\<close>\<close>

text \<open>
  The state after the evaluation that precedes training: \<open>best\<close> is the score it
  returned.
\<close>

definition initial_state :: "('x, 'o) env \<Rightarrow> real \<Rightarrow> ('x, 'o) state" where
  "initial_state env best =
     \<lparr>model = pretrained env, training = False, optimizer = optimizer_init env,
      draws = 0, best_stsb = best, best_step = 0,
      logs = [[(''epoch'', PyInt 0), (''step'', PyInt 0), (''loss'', PyNone), (''STSB'', PyFloat best)]],
      model_pt = None,
      trace = [Scored 0 0 False best]\<rparr>"

text \<open>
  \<open>main\<close>, given the lines of \<open>train.txt\<close>. The run configuration record written last
  is not modelled.
\<close>

definition main ::
  "('x, 'o) env \<Rightarrow> Args \<Rightarrow> string list \<Rightarrow> error + ('x, 'o) outputs" where
  "main env args f =
     (let train_dataset = SimCSEDataset isspace f
      in case DataLoader train_dataset (tokenizer env (Some (max_seq_len args)))
                (batch_size args) True of
           Inl e \<Rightarrow> Inl e
         | Inr train_dataloader \<Rightarrow>
        (case sts_dev env (encode env args (pretrained env) False 0) of
           Inl e \<Rightarrow> Inl e
         | Inr best \<Rightarrow>
        (case run_epochs env args train_dataloader (initial_state env best)
                [0..<nat (epochs args)] of
           Inl e \<Rightarrow> Inl e
         | Inr st \<Rightarrow>
             Inr \<lparr>final = st,
                  logs_csv = DataFrame (logs st),
                  best_metrics_json =
                    [(''step'', PyInt (int (best_step st))), (''stsb'', PyFloat (best_stsb st))]\<rparr>)))"

section \<open>Observations of a run\<close>

text \<open>
  The functions below read a trace or name what the script is expected to do; the
  properties of \<open>main\<close> are stated with them.
\<close>

text \<open>The random sampler of every epoch draws a permutation of the indices.\<close>

definition sampler_ok :: "('x, 'o) env \<Rightarrow> bool" where
  "sampler_ok env \<longleftrightarrow> (\<forall>epoch n. mset (randperm env epoch n) = mset [0..<n])"

text \<open>
  The step numbered \<open>s\<close> (from 1) of an epoch of \<open>n\<close> steps is followed by an evaluation:
  \<open>s\<close> is a multiple of the evaluation interval, or the last step of the epoch.
\<close>

definition eval_due :: "Args \<Rightarrow> nat \<Rightarrow> nat \<Rightarrow> bool" where
  "eval_due args n s \<longleftrightarrow> int s mod eval_logging_interval args = 0 \<or> s = n"

text \<open>The log record of an evaluation during training.\<close>

definition log_row :: "nat \<Rightarrow> nat \<Rightarrow> real \<Rightarrow> real \<Rightarrow> (string \<times> cell) list" where
  "log_row epoch s l score =
     [(''epoch'', PyInt (int epoch)), (''step'', PyInt (int s)),
      (''loss'', PyFloat l), (''stsb'', PyFloat score)]"

text \<open>
  The evaluations and the gradient updates of a trace, in order, each with its epoch,
  its step and the mode of the module.
\<close>

datatype call = EvalCall nat nat bool | UpdateCall nat nat bool

fun calls :: "'x event list \<Rightarrow> call list" where
  "calls [] = []"
| "calls (Scored e s m v # tr) = EvalCall e s m # calls tr"
| "calls (Updated e s m # tr) = UpdateCall e s m # calls tr"
| "calls (Saved e s v p # tr) = calls tr"

text \<open>
  The schedule: one evaluation in evaluation mode at epoch 0, step 0; then, in every
  epoch, for every step from 1 to \<open>n\<close>, the gradient update in training mode, followed
  by an evaluation in evaluation mode if one is due.
\<close>

definition step_calls :: "Args \<Rightarrow> nat \<Rightarrow> nat \<Rightarrow> nat \<Rightarrow> call list" where
  "step_calls args n epoch s =
     UpdateCall epoch s True # (if eval_due args n s then [EvalCall epoch s False] else [])"

definition epoch_calls :: "Args \<Rightarrow> nat \<Rightarrow> nat \<Rightarrow> call list" where
  "epoch_calls args n epoch = concat (map (step_calls args n epoch) [1..<n + 1])"

definition schedule :: "Args \<Rightarrow> nat \<Rightarrow> call list" where
  "schedule args n =
     EvalCall 0 0 False # concat (map (epoch_calls args n) [0..<nat (epochs args)])"

text \<open>The scores the evaluator returned, and the scores of the saves, in order.\<close>

fun scores :: "'x event list \<Rightarrow> real list" where
  "scores [] = []"
| "scores (Scored e s m v # tr) = v # scores tr"
| "scores (Updated e s m # tr) = scores tr"
| "scores (Saved e s v p # tr) = scores tr"

fun save_scores :: "'x event list \<Rightarrow> real list" where
  "save_scores [] = []"
| "save_scores (Scored e s m v # tr) = save_scores tr"
| "save_scores (Updated e s m # tr) = save_scores tr"
| "save_scores (Saved e s v p # tr) = v # save_scores tr"

text \<open>The last save of a trace: its epoch, step, score and parameters.\<close>

fun last_save :: "'x event list \<Rightarrow> (nat \<times> nat \<times> real \<times> 'x SimCSEModel) option" where
  "last_save [] = None"
| "last_save (Saved e s v p # tr) =
     (case last_save tr of None \<Rightarrow> Some (e, s, v, p) | Some x \<Rightarrow> Some x)"
| "last_save (Scored e s m v # tr) = last_save tr"
| "last_save (Updated e s m # tr) = last_save tr"

text \<open>
  The checkpoint policy, read on the trace that follows the first evaluation; \<open>b\<close> is
  the best score so far. An evaluation whose score is strictly greater than \<open>b\<close> is
  followed at once by a save at the same epoch and step with that score, which is the
  best score from then on; any other evaluation is followed by no save; and there is no
  other save.
\<close>

fun policy :: "real \<Rightarrow> 'x event list \<Rightarrow> bool" where
  "policy b [] = True"
| "policy b (Updated e s m # tr) = policy b tr"
| "policy b (Saved e s v p # tr) = False"
| "policy b (Scored e s m v # Saved e' s' v' p # tr) =
     (b < v \<and> e' = e \<and> s' = s \<and> v' = v \<and> policy v tr)"
| "policy b (Scored e s m v # tr) = (\<not> b < v \<and> policy b tr)"

text \<open>The best score after a trace that started with the best score \<open>b\<close>.\<close>

definition best_after :: "real \<Rightarrow> 'x event list \<Rightarrow> real" where
  "best_after b tr = (case last_save tr of None \<Rightarrow> b | Some (e, s, v, p) \<Rightarrow> v)"

text \<open>
  The best score, the best step and the content of the checkpoint file after a trace
  that started with the best score \<open>b\<close>, no best step and no file: those of the last
  save, if there is one.
\<close>

definition best_of ::
  "real \<Rightarrow> 'x event list \<Rightarrow> real \<times> nat \<times> 'x SimCSEModel option" where
  "best_of b tr =
     (case last_save tr of None \<Rightarrow> (b, 0, None) | Some (e, s, v, p) \<Rightarrow> (v, s, Some p))"

text \<open>
  The state agrees with its trace: the trace starts with the first evaluation, whose
  score is \<open>s0\<close>, and follows the policy from there; the best score, the best step and
  the checkpoint file are those of the last save, or the initial ones if there is none.
\<close>

definition policy_inv :: "real \<Rightarrow> ('x, 'o) state \<Rightarrow> bool" where
  "policy_inv s0 st \<longleftrightarrow>
     (\<exists>tr. trace st = Scored 0 0 False s0 # tr \<and> policy s0 tr
        \<and> (best_stsb st, best_step st, model_pt st) = best_of s0 tr)"

section \<open>A small environment\<close>

text \<open>
  An environment in which a run can be computed. A tokenized batch is the list of its
  texts; the encoder has one hidden unit and gives every position of every text the
  value \<open>q\<close>; the dense layer is zero. The optimizer state counts the updates, and the
  parameters after \<open>k\<close> updates are those of quality \<open>quality k\<close>. The evaluator embeds
  one sentence and returns the sum of the components of its embedding, so that the
  score of a model is its quality. The sampler draws the indices in order.
\<close>

definition example_model :: "real \<Rightarrow> string list SimCSEModel" where
  "example_model q =
     \<lparr>backbone = (\<lambda>t d x. map (\<lambda>s. [[q]]) x), hidden_size = 1,
      dense_weight = [[0]], dense_bias = [0]\<rparr>"

definition example_env :: "(nat \<Rightarrow> real) \<Rightarrow> (string list, nat) env" where
  "example_env quality =
     \<lparr>tokenizer = (\<lambda>max_length texts. texts),
      pretrained = example_model (quality 0),
      optimizer_init = 0,
      optimizer_step = (\<lambda>opt m d x. (opt + 1, example_model (quality (opt + 1)))),
      sts_dev = (\<lambda>encode. case encode [''probe''] of
                             Inr (r # rs) \<Rightarrow> Inr (sum_list r)
                           | _ \<Rightarrow> Inl ScorerError),
      randperm = (\<lambda>epoch n. [0..<n])\<rparr>"

definition example_args :: Args where
  "example_args =
     \<lparr>batch_size = 2, epochs = 1, temperature = 1 / 20, max_seq_len = 32,
      eval_logging_interval = 2\<rparr>"

text \<open>Seven lines, one of them blank: six samples, three batches of two.\<close>

definition example_lines :: "string list" where
  "example_lines =
     [''a'' @ [CHR 0x0A], '' b'' @ [CHR 0x0A], [CHR 0x0A], ''c'' @ [CHR 0x0A],
      ''d'' @ [CHR 0x0A], ''e'' @ [CHR 0x0A], ''f'']"

text \<open>The quality rises once, after the second update, and then stays.\<close>

definition rising :: "nat \<Rightarrow> real" where
  "rising k = (if k < 2 then 1 / 2 else 7 / 10)"

text \<open>The quality never rises.\<close>

definition flat :: "nat \<Rightarrow> real" where
  "flat k = 1 / 2"

text \<open>The loss of every step of the example: the embeddings in training are all zero.\<close>

definition example_loss_value :: real where
  "example_loss_value =
     (categorical_cross_entropy [0, 0] 0 + categorical_cross_entropy [0, 0] 1) / 2"

text \<open>
  What the run with the rising quality leaves: three updates, evaluations after the
  second (a multiple of the interval) and the third (the last of the epoch), one save.
\<close>

definition example_outputs :: "(string list, nat) outputs" where
  "example_outputs =
     \<lparr>final =
        \<lparr>model = example_model (7 / 10), training = True, optimizer = 3, draws = 6,
         best_stsb = 7 / 10, best_step = 2,
         logs =
           [[(''epoch'', PyInt 0), (''step'', PyInt 0), (''loss'', PyNone),
             (''STSB'', PyFloat (1 / 2))],
            [(''epoch'', PyInt 0), (''step'', PyInt 2), (''loss'', PyFloat example_loss_value),
             (''stsb'', PyFloat (7 / 10))],
            [(''epoch'', PyInt 0), (''step'', PyInt 3), (''loss'', PyFloat example_loss_value),
             (''stsb'', PyFloat (7 / 10))]],
         model_pt = Some (example_model (7 / 10)),
         trace =
           [Scored 0 0 False (1 / 2), Updated 0 1 True, Updated 0 2 True,
            Scored 0 2 False (7 / 10), Saved 0 2 (7 / 10) (example_model (7 / 10)),
            Updated 0 3 True, Scored 0 3 False (7 / 10)]\<rparr>,
      logs_csv =
        \<lparr>columns = [''epoch'', ''step'', ''loss'', ''STSB'', ''stsb''],
         rows =
           [[Some (PyInt 0), Some (PyInt 0), Some PyNone, Some (PyFloat (1 / 2)), None],
            [Some (PyInt 0), Some (PyInt 2), Some (PyFloat example_loss_value), None,
             Some (PyFloat (7 / 10))],
            [Some (PyInt 0), Some (PyInt 3), Some (PyFloat example_loss_value), None,
             Some (PyFloat (7 / 10))]]\<rparr>,
      best_metrics_json = [(''step'', PyInt 2), (''stsb'', PyFloat (7 / 10))]\<rparr>"

text \<open>What the run with the flat quality leaves: the same schedule, and no save.\<close>

definition flat_outputs :: "(string list, nat) outputs" where
  "flat_outputs =
     \<lparr>final =
        \<lparr>model = example_model (1 / 2), training = True, optimizer = 3, draws = 6,
         best_stsb = 1 / 2, best_step = 0,
         logs =
           [[(''epoch'', PyInt 0), (''step'', PyInt 0), (''loss'', PyNone),
             (''STSB'', PyFloat (1 / 2))],
            [(''epoch'', PyInt 0), (''step'', PyInt 2), (''loss'', PyFloat example_loss_value),
             (''stsb'', PyFloat (1 / 2))],
            [(''epoch'', PyInt 0), (''step'', PyInt 3), (''loss'', PyFloat example_loss_value),
             (''stsb'', PyFloat (1 / 2))]],
         model_pt = None,
         trace =
           [Scored 0 0 False (1 / 2), Updated 0 1 True, Updated 0 2 True,
            Scored 0 2 False (1 / 2), Updated 0 3 True, Scored 0 3 False (1 / 2)]\<rparr>,
      logs_csv =
        \<lparr>columns = [''epoch'', ''step'', ''loss'', ''STSB'', ''stsb''],
         rows =
           [[Some (PyInt 0), Some (PyInt 0), Some PyNone, Some (PyFloat (1 / 2)), None],
            [Some (PyInt 0), Some (PyInt 2), Some (PyFloat example_loss_value), None,
             Some (PyFloat (1 / 2))],
            [Some (PyInt 0), Some (PyInt 3), Some (PyFloat example_loss_value), None,
             Some (PyFloat (1 / 2))]]\<rparr>,
      best_metrics_json = [(''step'', PyInt 0), (''stsb'', PyFloat (1 / 2))]\<rparr>"

text \<open>
  A well-formed environment. The encoder returns one sequence for each text of the
  batch, each with a first position whose vector has \<open>hidden_size\<close> components, and the
  dense layer has its shape; the optimizer keeps this; the sampler draws permutations;
  and the evaluator returns a score when the embedding function it is given returns one
  embedding for each sentence.
\<close>

definition encoder_ok :: "('x, 'o) env \<Rightarrow> 'x SimCSEModel \<Rightarrow> bool" where
  "encoder_ok env m \<longleftrightarrow>
     dense_shape m
     \<and> (\<forall>t d ml texts.
           length (backbone m t d (tokenizer env ml texts)) = length texts
           \<and> (\<forall>s \<in> set (backbone m t d (tokenizer env ml texts)).
                 s \<noteq> [] \<and> length (s ! 0) = hidden_size m))"

definition env_ok :: "('x, 'o) env \<Rightarrow> bool" where
  "env_ok env \<longleftrightarrow>
     sampler_ok env
     \<and> encoder_ok env (pretrained env)
     \<and> (\<forall>opt m d x. encoder_ok env m \<longrightarrow> encoder_ok env (snd (optimizer_step env opt m d x)))
     \<and> (\<forall>enc. (\<forall>texts. texts \<noteq> [] \<longrightarrow> (\<exists>e. enc texts = Inr e \<and> length e = length texts))
              \<longrightarrow> (\<exists>v. sts_dev env enc = Inr v))"

section \<open>Properties of the dataset\<close>

lemma post_init_eq:
  "post_init sp data f = data @ filter (\<lambda>l. l \<noteq> []) (map (strip sp) f)"
  by (induction f arbitrary: data) (auto simp: Let_def)

lemma getitem_nat:
  "i < length data \<Longrightarrow> getitem data (int i) = Inr (data ! i)"
  by (simp add: getitem_def)

text \<open>
  Claim C7. The dataset built from the lines \<open>f\<close> of the file is the list of the trimmed
  lines that are not empty, in the order of the file; no sample is empty; the length of
  the dataset is the number of lines whose trimmed form is not empty; and indexing
  returns the stored sample as it is.
\<close>

theorem dataset_construction:
  "SimCSEDataset sp f = filter (\<lambda>l. l \<noteq> []) (map (strip sp) f)
   \<and> [] \<notin> set (SimCSEDataset sp f)
   \<and> len (SimCSEDataset sp f) = int (length (filter (\<lambda>l. strip sp l \<noteq> []) f))
   \<and> (\<forall>i < length (SimCSEDataset sp f).
        getitem (SimCSEDataset sp f) (int i) = Inr (SimCSEDataset sp f ! i))"
proof -
  have d: "SimCSEDataset sp f = filter (\<lambda>l. l \<noteq> []) (map (strip sp) f)"
    by (simp add: SimCSEDataset_def post_init_eq)
  have n: "length (filter (\<lambda>l. l \<noteq> []) (map (strip sp) f))
      = length (filter (\<lambda>l. strip sp l \<noteq> []) f)"
    by (induction f) auto
  show ?thesis
    using n by (simp add: d len_def getitem_nat)
qed

theorem dataset_construction_witness:
  "SimCSEDataset (\<lambda>c. c = CHR '' '' \<or> c = CHR 0x0A)
      [''  a b '' @ [CHR 0x0A], [CHR 0x0A], ''c'']
     = [''a b'', ''c'']
   \<and> len [''a b'', ''c''] = 2
   \<and> getitem [''a b'', ''c''] 1 = Inr ''c''"
  using dataset_construction [of "\<lambda>c. c = CHR '' '' \<or> c = CHR 0x0A"
      "[''  a b '' @ [CHR 0x0A], [CHR 0x0A], ''c'']"]
  by (simp add: strip_def len_def getitem_def)

section \<open>Properties of the batch loader\<close>

lemma traverse_Inr:
  "(\<And>x. x \<in> set xs \<Longrightarrow> f x = Inr (g x)) \<Longrightarrow> traverse f xs = Inr (map g xs)"
  by (induction xs) auto

lemma batch_sampler_small:
  "B = 0 \<or> xs = [] \<or> (length xs < B \<and> d) \<Longrightarrow> batch_sampler B d xs = []"
  by (subst batch_sampler.simps) auto

lemma batch_sampler_big:
  "0 < B \<Longrightarrow> B \<le> length xs \<Longrightarrow>
   batch_sampler B d xs = take B xs # batch_sampler B d (drop B xs)"
  by (subst batch_sampler.simps) auto

lemma batch_sampler_length:
  "0 < B \<Longrightarrow> length (batch_sampler B True xs) = length xs div B"
proof (induction xs rule: length_induct)
  case (1 xs)
  show ?case
  proof (cases "length xs < B")
    case True
    then show ?thesis by (simp add: batch_sampler_small)
  next
    case False
    then have le: "B \<le> length xs" by simp
    have "length (drop B xs) < length xs" using le 1(2) by simp
    then have "length (batch_sampler B True (drop B xs)) = length (drop B xs) div B"
      using 1 by blast
    then show ?thesis using le 1(2)
      by (simp add: batch_sampler_big le_div_geq)
  qed
qed

lemma batch_sampler_full:
  "0 < B \<Longrightarrow> b \<in> set (batch_sampler B True xs) \<Longrightarrow> length b = B"
proof (induction xs rule: length_induct)
  case (1 xs)
  show ?case
  proof (cases "length xs < B")
    case True
    then show ?thesis using 1(3) by (simp add: batch_sampler_small)
  next
    case False
    then have le: "B \<le> length xs" by simp
    have lt: "length (drop B xs) < length xs" using le 1(2) by simp
    from 1(3) le 1(2) have "b = take B xs \<or> b \<in> set (batch_sampler B True (drop B xs))"
      by (simp add: batch_sampler_big)
    then show ?thesis
    proof
      assume "b = take B xs" then show ?thesis using le by simp
    next
      assume "b \<in> set (batch_sampler B True (drop B xs))"
      then show ?thesis using 1(1) lt 1(2) by blast
    qed
  qed
qed

lemma batch_sampler_concat:
  "0 < B \<Longrightarrow> concat (batch_sampler B True xs) = take (length xs - length xs mod B) xs"
proof (induction xs rule: length_induct)
  case (1 xs)
  show ?case
  proof (cases "length xs < B")
    case True
    then show ?thesis by (simp add: batch_sampler_small)
  next
    case False
    then have le: "B \<le> length xs" by simp
    have lt: "length (drop B xs) < length xs" using le 1(2) by simp
    have ih: "concat (batch_sampler B True (drop B xs)) =
        take (length (drop B xs) - length (drop B xs) mod B) (drop B xs)"
      using 1(1) lt 1(2) by blast
    have m: "(length xs - B) mod B = length xs mod B"
      using le by (simp add: le_mod_geq)
    have "length xs mod B \<le> length xs - B"
      by (metis m mod_less_eq_dividend)
    then have k: "length xs - length xs mod B = B + (length xs - B - length xs mod B)"
      using le by simp
    have "concat (batch_sampler B True xs) =
        take B xs @ take (length xs - B - length xs mod B) (drop B xs)"
      using le 1(2) ih m by (simp add: batch_sampler_big)
    also have "\<dots> = take (B + (length xs - B - length xs mod B)) xs"
      by (simp add: take_add)
    finally show ?thesis using k by simp
  qed
qed

lemma mset_map_perm:
  assumes "mset perm = mset [0..<length data]"
  shows "mset (map (\<lambda>i. data ! i) perm) = mset data"
proof -
  have "mset (map (\<lambda>i. data ! i) perm) = image_mset (\<lambda>i. data ! i) (mset perm)" by simp
  also have "\<dots> = mset (map (\<lambda>i. data ! i) [0..<length data])" using assms by simp
  also have "\<dots> = mset data" by (simp add: map_nth)
  finally show ?thesis .
qed

lemma perm_in_range:
  assumes "mset perm = mset [0..<n]" "i \<in> set perm"
  shows "i < n"
proof -
  have "set perm = set [0..<n]" using assms(1) by (metis set_mset_mset)
  then show ?thesis using assms(2) by simp
qed

lemma batch_sampler_subset:
  "b \<in> set (batch_sampler B d xs) \<Longrightarrow> set b \<subseteq> set xs"
proof (induction xs arbitrary: b rule: length_induct)
  case (1 xs)
  show ?case
  proof (cases "B = 0 \<or> xs = [] \<or> length xs < B")
    case True
    then show ?thesis using 1(2)
      by (subst (asm) batch_sampler.simps) (auto split: if_splits)
  next
    case False
    then have le: "B \<le> length xs" and pos: "0 < B" by simp_all
    have lt: "length (drop B xs) < length xs" using le pos False by simp
    from 1(2) le pos have "b = take B xs \<or> b \<in> set (batch_sampler B d (drop B xs))"
      by (simp add: batch_sampler_big)
    then show ?thesis
    proof
      assume "b = take B xs" then show ?thesis by (simp add: set_take_subset)
    next
      assume "b \<in> set (batch_sampler B d (drop B xs))"
      then have "set b \<subseteq> set (drop B xs)" using 1(1) lt by blast
      then show ?thesis using set_drop_subset by fastforce
    qed
  qed
qed

lemma loader_batches_Inr:
  assumes "\<And>i. i \<in> set perm \<Longrightarrow> i < length (dataset ld)"
  shows "loader_batches ld perm =
     Inr (map (map (\<lambda>i. dataset ld ! i)) (batch_sampler (dl_batch_size ld) (drop_last ld) perm))"
  unfolding loader_batches_def
proof (rule traverse_Inr)
  fix b assume b: "b \<in> set (batch_sampler (dl_batch_size ld) (drop_last ld) perm)"
  have sub: "set b \<subseteq> set perm" using b by (rule batch_sampler_subset)
  show "traverse (\<lambda>i. getitem (dataset ld) (int i)) b = Inr (map ((!) (dataset ld)) b)"
    by (rule traverse_Inr) (use sub assms in \<open>auto simp: getitem_nat\<close>)
qed

text \<open>
  Claim C4. For a dataset of \<open>N\<close> samples, a batch size \<open>B\<close> and any index sequence
  \<open>perm\<close> the sampler draws for an epoch (a permutation of the indices), the loader is
  built, announces \<open>N div B\<close> batches and yields exactly \<open>N div B\<close> batches, each of
  exactly \<open>B\<close> samples; the yielded samples are \<open>N - N mod B\<close> samples of the dataset,
  and the \<open>N mod B\<close> that remain are in no batch.
\<close>

theorem loader_drop_last:
  assumes "data \<noteq> []" and "0 < B"
    and "mset perm = mset [0..<length data]"
  shows "\<exists>ld bs. DataLoader data collate (int B) True = Inr ld
      \<and> len_loader ld = length data div B
      \<and> loader_batches ld perm = Inr bs
      \<and> length bs = length data div B
      \<and> (\<forall>b \<in> set bs. length b = B)
      \<and> length (concat bs) = length data - length data mod B
      \<and> mset (concat bs) \<subseteq># mset data
      \<and> size (mset data - mset (concat bs)) = length data mod B"
proof -
  define ld where "ld = \<lparr>dataset = data, collate_fn = collate, dl_batch_size = B,
                drop_last = True\<rparr>"
  define bs where "bs = map (map (\<lambda>i. data ! i)) (batch_sampler B True perm)"
  have n: "length perm = length data"
    using assms(3) by (metis length_upt mset_eq_length minus_nat.diff_0)
  have c: "DataLoader data collate (int B) True = Inr ld"
    using assms(1,2) by (simp add: DataLoader_def ld_def)
  have l: "len_loader ld = length data div B"
    by (simp add: len_loader_def ld_def)
  have r: "\<And>i. i \<in> set perm \<Longrightarrow> i < length (dataset ld)"
    using perm_in_range [OF assms(3)] by (simp add: ld_def)
  have b: "loader_batches ld perm = Inr bs"
    using loader_batches_Inr [OF r] by (simp add: bs_def ld_def)
  have len: "length bs = length data div B"
    using assms(2) n by (simp add: bs_def batch_sampler_length)
  have full: "\<forall>b \<in> set bs. length b = B"
    using assms(2) by (auto simp: bs_def batch_sampler_full)
  have cc: "concat bs = map (\<lambda>i. data ! i) (take (length data - length data mod B) perm)"
    using assms(2) n by (simp add: bs_def map_concat [symmetric] batch_sampler_concat)
  have lc: "length (concat bs) = length data - length data mod B"
    using n by (simp add: cc)
  let ?k = "length data - length data mod B"
  have split: "mset data = mset (concat bs) + mset (map (\<lambda>i. data ! i) (drop ?k perm))"
  proof -
    have "mset data = mset (map (\<lambda>i. data ! i) perm)"
      using mset_map_perm [OF assms(3)] by simp
    also have "\<dots> = mset (map (\<lambda>i. data ! i) (take ?k perm @ drop ?k perm))" by simp
    also have "\<dots> = mset (concat bs) + mset (map (\<lambda>i. data ! i) (drop ?k perm))"
      unfolding cc map_append mset_append ..
    finally show ?thesis .
  qed
  have sub: "mset (concat bs) \<subseteq># mset data"
    by (subst split) simp
  have "mset data - mset (concat bs) = mset (map (\<lambda>i. data ! i) (drop ?k perm))"
    by (subst split) simp
  then have sz: "size (mset data - mset (concat bs)) = length data mod B"
    using n by simp
  show ?thesis using c l b len full lc sub sz by blast
qed

theorem loader_drop_last_witness:
  "[''a'', ''b'', ''c'', ''d'', ''e''] \<noteq> [] \<and> (0::nat) < 2
   \<and> mset [3, 0, 4, 1, 2] = mset [0..<length [''a'', ''b'', ''c'', ''d'', ''e'']]
   \<and> DataLoader [''a'', ''b'', ''c'', ''d'', ''e''] id 2 True
       = Inr \<lparr>dataset = [''a'', ''b'', ''c'', ''d'', ''e''], collate_fn = id,
              dl_batch_size = 2, drop_last = True\<rparr>
   \<and> loader_batches \<lparr>dataset = [''a'', ''b'', ''c'', ''d'', ''e''], collate_fn = id,
              dl_batch_size = 2, drop_last = True\<rparr> [3, 0, 4, 1, 2]
       = Inr [[''d'', ''a''], [''e'', ''b'']]"
proof -
  have p: "mset [3, 0, 4, 1, 2] = mset [0..<length [''a'', ''b'', ''c'', ''d'', ''e'']]"
    by (simp add: upt_rec eval_nat_numeral)
  have e: "loader_batches \<lparr>dataset = [''a'', ''b'', ''c'', ''d'', ''e''], collate_fn = id,
              dl_batch_size = 2, drop_last = True\<rparr> [3, 0, 4, 1, 2]
       = Inr [[''d'', ''a''], [''e'', ''b'']]"
    by code_simp
  have c: "DataLoader [''a'', ''b'', ''c'', ''d'', ''e''] id 2 True
       = Inr \<lparr>dataset = [''a'', ''b'', ''c'', ''d'', ''e''], collate_fn = id,
              dl_batch_size = 2, drop_last = True\<rparr>"
    by (simp add: DataLoader_def)
  have h1: "[''a'', ''b'', ''c'', ''d'', ''e''] \<noteq> []" and h2: "(0::nat) < 2"
    by simp_all
  from loader_drop_last [OF h1 h2 p, of id]
  have "\<exists>ld bs. DataLoader [''a'', ''b'', ''c'', ''d'', ''e''] id (int 2) True = Inr ld
      \<and> loader_batches ld [3, 0, 4, 1, 2] = Inr bs"
    by blast
  then show ?thesis using p e c by simp
qed

section \<open>Properties of the contrastive objective\<close>

lemma broadcast_zip_unsqueeze1:
  "broadcast_zip (unsqueeze1 e1) (unsqueeze0 e2) = Inr (map (\<lambda>r. ([r], e2)) e1)"
proof (cases "length e1 = 1")
  case True
  then obtain r where "e1 = [r]" by (cases e1) auto
  then show ?thesis by (simp add: broadcast_zip_def unsqueeze0_def unsqueeze1_def)
next
  case False
  then show ?thesis
    by (simp add: broadcast_zip_def unsqueeze0_def unsqueeze1_def comp_def)
qed

lemma broadcast_zip_single:
  "broadcast_zip [r] e2 = Inr (map (\<lambda>c. (r, c)) e2)"
proof (cases "length e2 = 1")
  case True
  then obtain c where "e2 = [c]" by (cases e2) auto
  then show ?thesis by (simp add: broadcast_zip_def)
next
  case False
  then show ?thesis by (auto simp: broadcast_zip_def)
qed

lemma broadcast_zip_same:
  "length u = length v \<Longrightarrow> broadcast_zip u v = Inr (zip u v)"
  by (simp add: broadcast_zip_def)

lemma cosine_similarity_pairwise:
  assumes "\<And>r. r \<in> set e1 \<Longrightarrow> length r = H" and "\<And>c. c \<in> set e2 \<Longrightarrow> length c = H"
  shows "cosine_similarity (unsqueeze1 e1) (unsqueeze0 e2)
     = Inr (map (\<lambda>r. map (\<lambda>c. cosine r c) e2) e1)"
proof -
  have inner: "traverse (\<lambda>(u, v). case broadcast_zip u v of Inl e \<Rightarrow> Inl e
        | Inr ps \<Rightarrow> Inr (cosine (map fst ps) (map snd ps))) (map (\<lambda>c. (r, c)) e2)
      = Inr (map (\<lambda>(u, v). cosine u v) (map (\<lambda>c. (r, c)) e2))" if "r \<in> set e1" for r
    by (rule traverse_Inr) (use that assms in \<open>auto simp: broadcast_zip_same\<close>)
  have outer: "traverse (\<lambda>(a, b). case broadcast_zip a b of Inl e \<Rightarrow> Inl e
        | Inr cols \<Rightarrow> traverse (\<lambda>(u, v). case broadcast_zip u v of Inl e \<Rightarrow> Inl e
            | Inr ps \<Rightarrow> Inr (cosine (map fst ps) (map snd ps))) cols)
        (map (\<lambda>r. ([r], e2)) e1)
      = Inr (map (\<lambda>(a, b). map (\<lambda>c. cosine (a ! 0) c) b) (map (\<lambda>r. ([r], e2)) e1))"
    by (rule traverse_Inr) (use inner in \<open>auto simp: broadcast_zip_single comp_def\<close>)
  show ?thesis
    by (simp add: cosine_similarity_def broadcast_zip_unsqueeze1 outer comp_def)
qed

lemma zip_upt_nth:
  "zip S [0..<length S] = map (\<lambda>i. (S ! i, i)) [0..<length S]"
  by (rule nth_equalityI) auto

lemma sum_list_zip_upt:
  "sum_list (map (\<lambda>(row, t). g row t) (zip S [0..<length S])) = (\<Sum>i<length S. g (S ! i) i)"
proof -
  have "sum_list (map (\<lambda>(row, t). g row t) (zip S [0..<length S]))
      = sum_list (map (\<lambda>i. g (S ! i) i) [0..<length S])"
    by (simp add: zip_upt_nth comp_def)
  also have "\<dots> = (\<Sum>i<length S. g (S ! i) i)"
    by (simp add: interv_sum_list_conv_sum_set_nat atLeast0LessThan)
  finally show ?thesis .
qed

lemma sim_matrix_pairwise:
  assumes "\<And>r. r \<in> set emb1 \<Longrightarrow> length r = H" and "\<And>c. c \<in> set emb2 \<Longrightarrow> length c = H"
  shows "sim_matrix args emb1 emb2
     = Inr (map (\<lambda>r. map (\<lambda>c. cosine r c / temperature args) emb2) emb1)"
  using cosine_similarity_pairwise [OF assms]
  by (simp add: sim_matrix_def comp_def)

lemma cross_entropy_arange:
  assumes "length S = B" and "\<And>row. row \<in> set S \<Longrightarrow> length row = B"
  shows "cross_entropy S (arange (int B))
     = Inr ((\<Sum>i<B. categorical_cross_entropy (S ! i) i) / real B)"
proof -
  have ok: "\<not> list_ex (\<lambda>(row, t). length row \<le> t) (zip S [0..<length S])"
    using assms by (auto simp: zip_upt_nth list_ex_iff)
  show ?thesis
    using ok assms(1) sum_list_zip_upt [of categorical_cross_entropy S]
    by (simp add: cross_entropy_def arange_def)
qed

lemma cross_entropy_mismatch:
  "length S \<noteq> nat n \<Longrightarrow> cross_entropy S (arange n) = Inl ValueError_target_size"
  by (simp add: cross_entropy_def arange_def)

text \<open>
  Claim C1. For a batch of \<open>B\<close> samples (\<open>B\<close> the configured batch size) and the two
  embedding matrices \<open>emb1\<close> and \<open>emb2\<close> of the two forward passes, each of \<open>B\<close> rows of a
  common width, the step computes a matrix of \<open>B\<close> rows and \<open>B\<close> columns whose entry
  \<open>(i, j)\<close> is the cosine similarity of row \<open>i\<close> of \<open>emb1\<close> and row \<open>j\<close> of \<open>emb2\<close> divided
  by the temperature, and the loss of the step is the mean over the rows \<open>i\<close> of the
  categorical cross-entropy of row \<open>i\<close> of that matrix against the label \<open>i\<close>.
\<close>

theorem contrastive_objective:
  assumes "length emb1 = B" and "length emb2 = B"
    and "\<forall>r \<in> set emb1. length r = H" and "\<forall>r \<in> set emb2. length r = H"
    and "batch_size args = int B" and "0 < B" and "temperature args \<noteq> 0"
  shows "\<exists>S. sim_matrix args emb1 emb2 = Inr S \<and> length S = B
      \<and> (\<forall>i<B. length (S ! i) = B
            \<and> (\<forall>j<B. S ! i ! j = cosine (emb1 ! i) (emb2 ! j) / temperature args))
      \<and> loss args emb1 emb2
          = Inr ((\<Sum>i<B. categorical_cross_entropy (S ! i) i) / real B)"
proof -
  define S where "S = map (\<lambda>r. map (\<lambda>c. cosine r c / temperature args) emb2) emb1"
  have s: "sim_matrix args emb1 emb2 = Inr S"
    unfolding S_def by (rule sim_matrix_pairwise [of emb1 H emb2]) (use assms in auto)
  have n: "length S = B" using assms(1) by (simp add: S_def)
  have rows: "\<And>row. row \<in> set S \<Longrightarrow> length row = B"
    using assms(2) by (auto simp: S_def)
  have entries: "\<forall>i<B. length (S ! i) = B
      \<and> (\<forall>j<B. S ! i ! j = cosine (emb1 ! i) (emb2 ! j) / temperature args)"
    using assms(1,2) by (simp add: S_def)
  have l: "loss args emb1 emb2 = Inr ((\<Sum>i<B. categorical_cross_entropy (S ! i) i) / real B)"
    using cross_entropy_arange [OF n rows] assms(5) by (simp add: loss_def s labels_def)
  show ?thesis using s n entries l by blast
qed


theorem contrastive_objective_witness:
  "length [[1, 0], [0, 1::real]] = 2
   \<and> (0::nat) < 2
   \<and> temperature \<lparr>batch_size = 2, epochs = 1, temperature = 1 / 20, max_seq_len = 32,
         eval_logging_interval = 250\<rparr> \<noteq> 0
   \<and> sim_matrix \<lparr>batch_size = 2, epochs = 1, temperature = 1 / 20, max_seq_len = 32,
         eval_logging_interval = 250\<rparr> [[1, 0], [0, 1]] [[1, 0], [0, 1]]
       = Inr [[20, 0], [0, 20]]
   \<and> loss \<lparr>batch_size = 2, epochs = 1, temperature = 1 / 20, max_seq_len = 32,
         eval_logging_interval = 250\<rparr> [[1, 0], [0, 1]] [[1, 0], [0, 1]]
       = Inr ((categorical_cross_entropy [20, 0] 0 + categorical_cross_entropy [0, 20] 1) / 2)"
proof -
  define a where "a = \<lparr>batch_size = 2, epochs = 1, temperature = 1 / 20, max_seq_len = 32,
         eval_logging_interval = 250\<rparr>"
  define e :: mat where "e = [[1, 0], [0, 1]]"
  have h1: "length e = 2" and h3: "\<forall>r \<in> set e. length r = 2"
    and h5: "batch_size a = int 2" and h6: "(0::nat) < 2" and h7: "temperature a \<noteq> 0"
    by (simp_all add: e_def a_def)
  have c: "cosine [1, 0] [1, 0] = 1" "cosine [1, 0] [0, 1] = 0"
    "cosine [0, 1] [1, 0] = 0" "cosine [0, 1] [0, 1] = 1"
    by (simp_all add: cosine_def dot_def l2_norm_def cosine_eps_def)
  have sm: "sim_matrix a e e = Inr [[20, 0], [0, 20]]"
    using sim_matrix_pairwise [of e 2 e a] h3 by (simp add: e_def a_def c)
  from contrastive_objective [OF h1 h1 h3 h3 h5 h6 h7]
  obtain S where S: "sim_matrix a e e = Inr S"
    and L: "loss a e e = Inr ((\<Sum>i<2. categorical_cross_entropy (S ! i) i) / real 2)"
    by blast
  from S sm have "S = [[20, 0], [0, 20]]" by simp
  with L have "loss a e e
      = Inr ((categorical_cross_entropy [20, 0] 0 + categorical_cross_entropy [0, 20] 1) / 2)"
    by (simp add: lessThan_Suc numeral_2_eq_2)
  then show ?thesis using sm h1 h7 unfolding a_def e_def by simp
qed

section \<open>Properties of the encoder wrapper\<close>

lemma select_first_Inr:
  "(\<And>s. s \<in> set t \<Longrightarrow> s \<noteq> []) \<Longrightarrow> select_first t = Inr (map (\<lambda>s. s ! 0) t)"
  unfolding select_first_def by (rule traverse_Inr) simp

lemma Linear_Inr:
  "(\<And>r. r \<in> set x \<Longrightarrow> length r = n) \<Longrightarrow>
   Linear n W b x = Inr (map (\<lambda>r. map2 (\<lambda>w c. dot w r + c) W b) x)"
  unfolding Linear_def by (rule traverse_Inr) simp

text \<open>
  Claim C5. Let \<open>h\<close> be the final hidden states the encoder returns for a batch, every
  sequence with a first position whose vector has \<open>hidden_size\<close> components. The pooled
  vector of a sample is the hidden state at position 0. Called with \<open>use_mlp\<close> (the
  default, used in training), \<open>forward\<close> returns for each sample the hyperbolic tangent
  of the linear map of \<open>self.dense\<close> applied to the pooled vector: a vector of
  \<open>hidden_size\<close> components, each in \<open>[-1, 1]\<close>. Called without \<open>use_mlp\<close> (evaluation),
  it returns the pooled vectors themselves.
\<close>

theorem forward_pooling:
  assumes "dense_shape m"
    and "\<forall>s \<in> set (backbone m mode draw x). s \<noteq> [] \<and> length (s ! 0) = hidden_size m"
  shows "\<exists>emb. forward m mode draw x True = Inr emb
      \<and> emb = map (\<lambda>s. map tanh (map2 (\<lambda>w c. dot w (s ! 0) + c)
                                   (dense_weight m) (dense_bias m)))
                 (backbone m mode draw x)
      \<and> (\<forall>row \<in> set emb. length row = hidden_size m \<and> (\<forall>v \<in> set row. - 1 \<le> v \<and> v \<le> 1))
      \<and> forward m mode draw x False
          = Inr (map (\<lambda>s. s ! 0) (backbone m mode draw x))"
proof -
  let ?h = "backbone m mode draw x"
  have p: "select_first ?h = Inr (map (\<lambda>s. s ! 0) ?h)"
    by (rule select_first_Inr) (use assms(2) in blast)
  have l: "Linear (hidden_size m) (dense_weight m) (dense_bias m) (map (\<lambda>s. s ! 0) ?h)
      = Inr (map (\<lambda>r. map2 (\<lambda>w c. dot w r + c) (dense_weight m) (dense_bias m))
               (map (\<lambda>s. s ! 0) ?h))"
    by (rule Linear_Inr) (use assms(2) in auto)
  have t: "forward m mode draw x True
      = Inr (map (\<lambda>s. map tanh (map2 (\<lambda>w c. dot w (s ! 0) + c)
                (dense_weight m) (dense_bias m))) ?h)"
    by (simp add: forward_def p l Tanh_def comp_def)
  have f: "forward m mode draw x False = Inr (map (\<lambda>s. s ! 0) ?h)"
    by (simp add: forward_def p)
  have b: "- 1 \<le> tanh v \<and> tanh v \<le> 1" for v :: real
    using tanh_real_lt_1 [of v] tanh_real_gt_neg1 [of v] by simp
  have r: "\<forall>row \<in> set (map (\<lambda>s. map tanh (map2 (\<lambda>w c. dot w (s ! 0) + c)
                (dense_weight m) (dense_bias m))) ?h).
        length row = hidden_size m \<and> (\<forall>v \<in> set row. - 1 \<le> v \<and> v \<le> 1)"
    using assms(1) b by (auto simp: dense_shape_def)
  show ?thesis using t f r by blast
qed

theorem forward_pooling_witness:
  "dense_shape \<lparr>backbone = (\<lambda>t d x. map (\<lambda>s. [[s, 1], [5, 5]]) x), hidden_size = 2,
       dense_weight = [[1, 0], [0, 0]], dense_bias = [0, 0]\<rparr>
   \<and> forward \<lparr>backbone = (\<lambda>t d x. map (\<lambda>s. [[s, 1], [5, 5]]) x), hidden_size = 2,
       dense_weight = [[1, 0], [0, 0]], dense_bias = [0, 0]\<rparr> True 0 [3, 4] True
       = Inr [[tanh 3, 0], [tanh 4, 0]]
   \<and> forward \<lparr>backbone = (\<lambda>t d x. map (\<lambda>s. [[s, 1], [5, 5]]) x), hidden_size = 2,
       dense_weight = [[1, 0], [0, 0]], dense_bias = [0, 0]\<rparr> False 0 [3, 4] False
       = Inr [[3, 1], [4, 1]]"
proof -
  define m :: "real list SimCSEModel" where
    "m = \<lparr>backbone = (\<lambda>t d x. map (\<lambda>s. [[s, 1], [5, 5]]) x), hidden_size = 2,
       dense_weight = [[1, 0], [0, 0]], dense_bias = [0, 0]\<rparr>"
  have h1: "dense_shape m" by (simp add: m_def dense_shape_def)
  have h2: "\<forall>s \<in> set (backbone m t 0 [3, 4]). s \<noteq> [] \<and> length (s ! 0) = hidden_size m"
    for t by (simp add: m_def)
  from forward_pooling [OF h1 h2 [of True]]
  have a: "forward m True 0 [3, 4] True = Inr [[tanh 3, 0], [tanh 4, 0]]"
    by (simp add: m_def dot_def)
  from forward_pooling [OF h1 h2 [of False]]
  have b: "forward m False 0 [3, 4] False = Inr [[3, 1], [4, 1]]"
    by (simp add: m_def)
  show ?thesis using h1 a b unfolding m_def by simp
qed

section \<open>Properties of a training step\<close>

lemma update_best_fields [simp]:
  "logs (update_best epoch step v st) = logs st"
  "training (update_best epoch step v st) = training st"
  "model (update_best epoch step v st) = model st"
  "optimizer (update_best epoch step v st) = optimizer st"
  "draws (update_best epoch step v st) = draws st"
  by (simp_all add: update_best_def)

lemma evaluate_Inr:
  assumes "evaluate env args epoch step l st = Inr st'"
  shows "\<exists>score.
      trace st' = trace st @ Scored epoch (step + 1) False score
                  # (if best_stsb st < score then [Saved epoch (step + 1) score (model st)] else [])
    \<and> best_stsb st' = (if best_stsb st < score then score else best_stsb st)
    \<and> best_step st' = (if best_stsb st < score then step + 1 else best_step st)
    \<and> model_pt st' = (if best_stsb st < score then Some (model st) else model_pt st)
    \<and> logs st' = logs st @ [log_row epoch (step + 1) l score]
    \<and> training st' \<and> model st' = model st"
proof -
  from assms obtain score where
    s: "sts_dev env (encode env args (model st) False (draws st)) = Inr score"
    by (auto simp: evaluate_def Let_def split: sum.splits)
  with assms have "st' = (update_best epoch step score
        (st\<lparr>training := False, trace := trace st @ [Scored epoch (step + 1) False score]\<rparr>))
      \<lparr>logs := logs st @ [log_row epoch (step + 1) l score], training := True\<rparr>"
    by (auto simp: evaluate_def Let_def log_row_def)
  then show ?thesis
    by (intro exI [of _ score]) (simp add: update_best_def)
qed

lemma train_step_Inr:
  assumes "train_step env args n epoch st step batch = Inr st'"
  shows "eval_logging_interval args \<noteq> 0 \<and> (\<exists>m l score.
     if eval_due args n (step + 1) then
        trace st' = trace st @ Updated epoch (step + 1) (training st)
                  # Scored epoch (step + 1) False score
                  # (if best_stsb st < score then [Saved epoch (step + 1) score m] else [])
      \<and> best_stsb st' = (if best_stsb st < score then score else best_stsb st)
      \<and> best_step st' = (if best_stsb st < score then step + 1 else best_step st)
      \<and> model_pt st' = (if best_stsb st < score then Some m else model_pt st)
      \<and> logs st' = logs st @ [log_row epoch (step + 1) l score]
      \<and> training st'
     else
        trace st' = trace st @ [Updated epoch (step + 1) (training st)]
      \<and> best_stsb st' = best_stsb st
      \<and> best_step st' = best_step st
      \<and> model_pt st' = model_pt st
      \<and> logs st' = logs st
      \<and> training st' = training st)"
proof -
  from assms obtain emb1 emb2 l where
    l: "loss args emb1 emb2 = Inr l"
    by (auto simp: train_step_def split: sum.splits)
  obtain opt m where om: "optimizer_step env (optimizer st) (model st) (draws st) batch = (opt, m)"
    by (cases "optimizer_step env (optimizer st) (model st) (draws st) batch")
  define st1 where "st1 = st\<lparr>model := m, optimizer := opt, draws := draws st + 2,
      trace := trace st @ [Updated epoch (step + 1) (training st)]\<rparr>"
  from assms om have k: "eval_logging_interval args \<noteq> 0"
    by (auto simp: train_step_def Let_def split: sum.splits if_splits)
  have due: "eval_due args n (step + 1)
      \<longleftrightarrow> (int step + 1) mod eval_logging_interval args = 0 \<or> step + 1 = n"
    by (simp add: eval_due_def algebra_simps)
  show ?thesis
  proof (cases "eval_due args n (step + 1)")
    case True
    then have "(int step + 1) mod eval_logging_interval args = 0 \<or> step + 1 = n"
      unfolding due .
    with assms om k obtain l' where "evaluate env args epoch step l' st1 = Inr st'"
      unfolding train_step_def Let_def st1_def by (auto split: sum.splits)
    from evaluate_Inr [OF this] obtain score where
      "trace st' = trace st1 @ Scored epoch (step + 1) False score
                  # (if best_stsb st1 < score then [Saved epoch (step + 1) score (model st1)] else [])"
      "best_stsb st' = (if best_stsb st1 < score then score else best_stsb st1)"
      "best_step st' = (if best_stsb st1 < score then step + 1 else best_step st1)"
      "model_pt st' = (if best_stsb st1 < score then Some (model st1) else model_pt st1)"
      "logs st' = logs st1 @ [log_row epoch (step + 1) l' score]"
      "training st'" by blast
    then show ?thesis using True k
      by (intro conjI exI [of _ m] exI [of _ l'] exI [of _ score]) (simp_all add: st1_def)
  next
    case False
    then have "\<not> ((int step + 1) mod eval_logging_interval args = 0 \<or> step + 1 = n)"
      unfolding due .
    with assms om k have "st' = st1"
      unfolding train_step_def Let_def st1_def by (auto split: sum.splits)
    then show ?thesis using False k by (simp add: st1_def)
  qed
qed

section \<open>The schedule of evaluations\<close>

lemma calls_append: "calls (a @ b) = calls a @ calls b"
  by (induction a rule: calls.induct) simp_all

lemma traverse_length: "traverse f xs = Inr ys \<Longrightarrow> length ys = length xs"
  by (induction xs arbitrary: ys) (auto split: sum.splits)

lemma train_step_calls:
  assumes "train_step env args n epoch st step batch = Inr st'" and "training st"
  shows "calls (trace st') = calls (trace st) @ step_calls args n epoch (step + 1)
     \<and> training st'"
proof -
  from train_step_Inr [OF assms(1)] obtain m l score where
    c: "if eval_due args n (step + 1) then
        trace st' = trace st @ Updated epoch (step + 1) (training st)
                  # Scored epoch (step + 1) False score
                  # (if best_stsb st < score then [Saved epoch (step + 1) score m] else [])
        \<and> training st'
     else
        trace st' = trace st @ [Updated epoch (step + 1) (training st)]
      \<and> training st' = training st"
    by (auto split: if_splits)
  show ?thesis
  proof (cases "eval_due args n (step + 1)")
    case True
    with c assms(2) show ?thesis by (simp add: calls_append step_calls_def)
  next
    case False
    with c assms(2) show ?thesis by (simp add: calls_append step_calls_def)
  qed
qed

lemma run_steps_calls:
  assumes "run_steps env args n epoch st its = Inr st'" and "training st"
  shows "calls (trace st') =
      calls (trace st) @ concat (map (\<lambda>(step, b). step_calls args n epoch (step + 1)) its)
     \<and> training st'"
  using assms
proof (induction its arbitrary: st)
  case Nil
  then show ?case by simp
next
  case (Cons it its)
  obtain step batch where it: "it = (step, batch)" by (cases it)
  from Cons.prems(1) it obtain st1 where
    s1: "train_step env args n epoch st step batch = Inr st1"
    and r: "run_steps env args n epoch st1 its = Inr st'"
    by (auto split: sum.splits)
  from train_step_calls [OF s1 Cons.prems(2)]
  have c1: "calls (trace st1) = calls (trace st) @ step_calls args n epoch (step + 1)"
    and t1: "training st1" by simp_all
  from Cons.IH [OF r t1] c1 it show ?case by simp
qed

lemma enumerate_step_calls:
  "concat (map (\<lambda>(step, b). f (step + 1)) (enumerate k bs))
     = concat (map f [k + 1..<k + length bs + 1])"
proof (induction bs arbitrary: k)
  case Nil
  then show ?case by simp
next
  case (Cons b bs)
  have "[k + 1..<k + length (b # bs) + 1] = (k + 1) # [Suc k + 1..<Suc k + length bs + 1]"
    by (simp add: upt_rec)
  then show ?case using Cons [of "Suc k"] by simp
qed

lemma iter_loader_length:
  assumes "iter_loader ld perm = Inr batches" and "length perm = length (dataset ld)"
    and "drop_last ld" and "0 < dl_batch_size ld"
  shows "length batches = len_loader ld"
proof -
  from assms(1) obtain bs where b: "loader_batches ld perm = Inr bs"
    and e: "batches = map (collate_fn ld) bs"
    by (auto simp: iter_loader_def split: sum.splits)
  from b have "length bs = length (batch_sampler (dl_batch_size ld) (drop_last ld) perm)"
    unfolding loader_batches_def by (rule traverse_length)
  then show ?thesis
    using assms(2,3,4) e by (simp add: batch_sampler_length len_loader_def)
qed

lemma sampler_ok_length: "sampler_ok env \<Longrightarrow> length (randperm env epoch n) = n"
  unfolding sampler_ok_def by (metis length_upt mset_eq_length minus_nat.diff_0)

lemma run_epochs_calls:
  assumes "run_epochs env args ld st es = Inr st'"
    and "sampler_ok env" and "drop_last ld" and "0 < dl_batch_size ld"
  shows "calls (trace st') =
      calls (trace st) @ concat (map (epoch_calls args (len_loader ld)) es)
     \<and> (es \<noteq> [] \<longrightarrow> training st')"
  using assms(1)
proof (induction es arbitrary: st)
  case Nil
  then show ?case by simp
next
  case (Cons epoch es)
  from Cons.prems obtain batches st1 where
    i: "iter_loader ld (randperm env epoch (length (dataset ld))) = Inr batches"
    and s: "run_steps env args (len_loader ld) epoch (st\<lparr>training := True\<rparr>)
              (enumerate 0 batches) = Inr st1"
    and r: "run_epochs env args ld st1 es = Inr st'"
    by (auto split: sum.splits)
  have n: "length batches = len_loader ld"
    using iter_loader_length [OF i sampler_ok_length [OF assms(2)] assms(3,4)] .
  from run_steps_calls [OF s]
  have c1: "calls (trace st1) = calls (trace st) @ epoch_calls args (len_loader ld) epoch"
    and t1: "training st1"
    using enumerate_step_calls [of "step_calls args (len_loader ld) epoch" 0 batches] n
    by (simp_all add: epoch_calls_def)
  from Cons.IH [OF r] have c2: "calls (trace st') =
      calls (trace st1) @ concat (map (epoch_calls args (len_loader ld)) es)"
    and t2: "es \<noteq> [] \<longrightarrow> training st'" by simp_all
  have "training st'"
  proof (cases es)
    case Nil
    with r t1 show ?thesis by simp
  next
    case (Cons a list)
    with t2 show ?thesis by simp
  qed
  then show ?case using c1 c2 by simp
qed


lemma DataLoader_Inr:
  assumes "DataLoader data collate bs True = Inr ld"
  shows "dataset ld = data" and "drop_last ld" and "0 < dl_batch_size ld"
    and "dl_batch_size ld = nat bs" and "0 < bs" and "data \<noteq> []"
    and "collate_fn ld = collate"
  using assms by (auto simp: DataLoader_def split: if_splits)

lemma main_Inr:
  assumes "main env args f = Inr out"
  obtains ld best where
    "DataLoader (SimCSEDataset isspace f) (tokenizer env (Some (max_seq_len args)))
        (batch_size args) True = Inr ld"
    and "sts_dev env (encode env args (pretrained env) False 0) = Inr best"
    and "run_epochs env args ld (initial_state env best) [0..<nat (epochs args)]
        = Inr (final out)"
    and "logs_csv out = DataFrame (logs (final out))"
    and "best_metrics_json out =
        [(''step'', PyInt (int (best_step (final out)))),
         (''stsb'', PyFloat (best_stsb (final out)))]"
  using assms unfolding main_def Let_def by (auto split: sum.splits)

text \<open>
  Claim C6. In a run that completes, the evaluations and the gradient updates are
  exactly those of the schedule, in its order: one evaluation at step 0 before any
  update; then in every epoch, after the update of each step whose number (from 1) is a
  multiple of the evaluation interval or is the last of the epoch, one evaluation, and
  none after any other step. Every evaluation is made in evaluation mode and every
  update in training mode, and once an epoch has run the module is left in training
  mode. \<open>n\<close> is the number of batches of an epoch.
\<close>

theorem evaluation_schedule:
  assumes "main env args f = Inr out" and "sampler_ok env"
  shows "calls (trace (final out))
       = schedule args (length (SimCSEDataset isspace f) div nat (batch_size args))
     \<and> (0 < epochs args \<longrightarrow> training (final out))"
proof -
  from assms(1) obtain ld best where
    d: "DataLoader (SimCSEDataset isspace f) (tokenizer env (Some (max_seq_len args)))
        (batch_size args) True = Inr ld"
    and r: "run_epochs env args ld (initial_state env best) [0..<nat (epochs args)]
        = Inr (final out)"
    by (rule main_Inr)
  note ld = DataLoader_Inr [OF d]
  have n: "len_loader ld = length (SimCSEDataset isspace f) div nat (batch_size args)"
    using ld(1,2,4) by (simp add: len_loader_def)
  from run_epochs_calls [OF r assms(2) ld(2,3)]
  have c: "calls (trace (final out)) = calls (trace (initial_state env best))
        @ concat (map (epoch_calls args (len_loader ld)) [0..<nat (epochs args)])"
    and t: "[0..<nat (epochs args)] \<noteq> [] \<longrightarrow> training (final out)" by simp_all
  show ?thesis using c t n by (simp add: schedule_def initial_state_def)
qed

section \<open>The checkpoint policy\<close>

lemma last_save_append:
  "last_save (a @ b) = (case last_save b of None \<Rightarrow> last_save a | Some x \<Rightarrow> Some x)"
  by (induction a rule: last_save.induct) (auto split: option.splits)

lemma save_scores_append: "save_scores (a @ b) = save_scores a @ save_scores b"
  by (induction a rule: save_scores.induct) simp_all

lemma scores_append: "scores (a @ b) = scores a @ scores b"
  by (induction a rule: scores.induct) simp_all

lemma policy_append:
  "policy b (tr @ Updated e s m # ext) = (policy b tr \<and> policy (best_after b tr) ext)"
  by (induction b tr rule: policy.induct)
    (auto simp: best_after_def split: option.splits)

lemma best_after_best_of: "best_after b tr = fst (best_of b tr)"
  by (simp add: best_after_def best_of_def split: option.splits)

lemma best_of_append:
  "best_of b (a @ c) = (case last_save c of None \<Rightarrow> best_of b a | Some x \<Rightarrow> best_of b c)"
  by (auto simp: best_of_def last_save_append split: option.splits)

lemma train_step_policy:
  assumes "train_step env args n epoch st step batch = Inr st'" and "policy_inv s0 st"
  shows "policy_inv s0 st'"
proof -
  from assms(2) obtain tr where
    t: "trace st = Scored 0 0 False s0 # tr" and p: "policy s0 tr"
    and f: "(best_stsb st, best_step st, model_pt st) = best_of s0 tr"
    unfolding policy_inv_def by blast
  have b: "best_after s0 tr = best_stsb st"
    using arg_cong [OF f, of fst] by (simp add: best_after_best_of)
  from train_step_Inr [OF assms(1)] obtain m l score where
    c: "if eval_due args n (step + 1) then
        trace st' = trace st @ Updated epoch (step + 1) (training st)
                  # Scored epoch (step + 1) False score
                  # (if best_stsb st < score then [Saved epoch (step + 1) score m] else [])
      \<and> best_stsb st' = (if best_stsb st < score then score else best_stsb st)
      \<and> best_step st' = (if best_stsb st < score then step + 1 else best_step st)
      \<and> model_pt st' = (if best_stsb st < score then Some m else model_pt st)
     else
        trace st' = trace st @ [Updated epoch (step + 1) (training st)]
      \<and> best_stsb st' = best_stsb st
      \<and> best_step st' = best_step st
      \<and> model_pt st' = model_pt st"
    by (auto split: if_splits)
  consider (plain) "\<not> eval_due args n (step + 1)"
    | (keep) "eval_due args n (step + 1)" "\<not> best_stsb st < score"
    | (save) "eval_due args n (step + 1)" "best_stsb st < score" by blast
  then show ?thesis
  proof cases
    case plain
    with c have "trace st' = Scored 0 0 False s0 # (tr @ [Updated epoch (step + 1) (training st)])"
      and "best_stsb st' = best_stsb st" "best_step st' = best_step st"
      "model_pt st' = model_pt st" using t by simp_all
    then show ?thesis unfolding policy_inv_def
      using p f by (intro exI [of _ "tr @ [Updated epoch (step + 1) (training st)]"])
        (simp add: policy_append best_of_append)
  next
    case keep
    with c have "trace st' = Scored 0 0 False s0 # (tr @ Updated epoch (step + 1) (training st)
          # [Scored epoch (step + 1) False score])"
      and "best_stsb st' = best_stsb st" "best_step st' = best_step st"
      "model_pt st' = model_pt st" using t by simp_all
    then show ?thesis unfolding policy_inv_def
      using p f b keep(2)
      by (intro exI [of _ "tr @ Updated epoch (step + 1) (training st)
          # [Scored epoch (step + 1) False score]"])
        (simp add: policy_append best_of_append)
  next
    case save
    with c have "trace st' = Scored 0 0 False s0 # (tr @ Updated epoch (step + 1) (training st)
          # [Scored epoch (step + 1) False score, Saved epoch (step + 1) score m])"
      and "best_stsb st' = score" "best_step st' = step + 1"
      "model_pt st' = Some m" using t by simp_all
    then show ?thesis unfolding policy_inv_def
      using p b save(2)
      by (intro exI [of _ "tr @ Updated epoch (step + 1) (training st)
          # [Scored epoch (step + 1) False score, Saved epoch (step + 1) score m]"])
        (simp add: policy_append last_save_append best_of_def)
  qed
qed

lemma run_steps_policy:
  "run_steps env args n epoch st its = Inr st' \<Longrightarrow> policy_inv s0 st \<Longrightarrow> policy_inv s0 st'"
proof (induction its arbitrary: st)
  case Nil
  then show ?case by simp
next
  case (Cons it its)
  obtain step batch where it: "it = (step, batch)" by (cases it)
  from Cons.prems(1) it obtain st1 where
    s1: "train_step env args n epoch st step batch = Inr st1"
    and r: "run_steps env args n epoch st1 its = Inr st'"
    by (auto split: sum.splits)
  from Cons.IH [OF r train_step_policy [OF s1 Cons.prems(2)]] show ?case .
qed

lemma policy_inv_training [simp]:
  "policy_inv s0 (st\<lparr>training := t\<rparr>) = policy_inv s0 st"
  by (simp add: policy_inv_def)

lemma run_epochs_policy:
  "run_epochs env args ld st es = Inr st' \<Longrightarrow> policy_inv s0 st \<Longrightarrow> policy_inv s0 st'"
proof (induction es arbitrary: st)
  case Nil
  then show ?case by simp
next
  case (Cons epoch es)
  from Cons.prems(1) obtain batches st1 where
    s: "run_steps env args (len_loader ld) epoch (st\<lparr>training := True\<rparr>)
              (enumerate 0 batches) = Inr st1"
    and r: "run_epochs env args ld st1 es = Inr st'"
    by (auto split: sum.splits)
  have "policy_inv s0 st1"
    using run_steps_policy [OF s] Cons.prems(2) by simp
  from Cons.IH [OF r this] show ?case .
qed

lemma initial_policy: "policy_inv best (initial_state env best)"
  by (simp add: policy_inv_def initial_state_def best_of_def)

lemma policy_sorted: "policy b tr \<Longrightarrow> sorted_wrt (<) (b # save_scores tr)"
proof (induction b tr rule: policy.induct)
  case (4 b e s m v e' s' v' p tr)
  then have "b < v" and "v' = v" and "sorted_wrt (<) (v # save_scores tr)" by simp_all
  then show ?case by auto
qed simp_all

lemma last_save_scores:
  "last_save tr = None \<longleftrightarrow> save_scores tr = []"
  "last_save tr = Some (e, s, v, p) \<Longrightarrow> last (save_scores tr) = v"
  by (induction tr rule: last_save.induct) (auto split: option.splits)

lemma policy_no_improvement:
  "policy b tr \<Longrightarrow> \<forall>v \<in> set (scores tr). \<not> b < v \<Longrightarrow> last_save tr = None"
  by (induction b tr rule: policy.induct) auto


lemma main_policy:
  assumes "main env args f = Inr out"
  obtains s0 tr where
    "sts_dev env (encode env args (pretrained env) False 0) = Inr s0"
    and "trace (final out) = Scored 0 0 False s0 # tr" and "policy s0 tr"
    and "(best_stsb (final out), best_step (final out), model_pt (final out)) = best_of s0 tr"
proof -
  from assms obtain ld best where
    b: "sts_dev env (encode env args (pretrained env) False 0) = Inr best"
    and r: "run_epochs env args ld (initial_state env best) [0..<nat (epochs args)]
        = Inr (final out)"
    by (rule main_Inr)
  from run_epochs_policy [OF r initial_policy] b that show ?thesis
    unfolding policy_inv_def by blast
qed

text \<open>
  Claim C2. The comparison at an evaluation updates the best score, the best step and
  the checkpoint file if the score is strictly greater than the best score, and leaves
  the state as it is otherwise, also when the two are equal. In a run that completes,
  the trace after the first evaluation follows the checkpoint policy: a save follows an
  evaluation exactly when its score is strictly greater than the best score so far. The
  successive best scores (the first score, then the score of each save) are strictly
  increasing, so the best score never decreases. At the end the best-metrics record
  holds the step and the score of the last save, whose parameters are the content of the
  checkpoint file; with no save it holds step 0 and the first score, and no file was
  written.
\<close>

theorem best_score_policy:
  assumes "main env args f = Inr out"
  shows "(\<forall>(st :: ('x, 'o) state) e s v.
            (best_stsb st < v \<longrightarrow>
               best_stsb (update_best e s v st) = v
               \<and> best_step (update_best e s v st) = s + 1
               \<and> model_pt (update_best e s v st) = Some (model st))
          \<and> (\<not> best_stsb st < v \<longrightarrow> update_best e s v st = st))
     \<and> (\<exists>s0 tr. trace (final (out :: ('x, 'o) outputs)) = Scored 0 0 False s0 # tr
          \<and> policy s0 tr
          \<and> sorted_wrt (<) (s0 # save_scores tr)
          \<and> best_stsb (final out) = last (s0 # save_scores tr)
          \<and> (case last_save tr of
                None \<Rightarrow>
                  best_metrics_json out = [(''step'', PyInt 0), (''stsb'', PyFloat s0)]
                  \<and> model_pt (final out) = None
              | Some (e, s, v, p) \<Rightarrow>
                  best_metrics_json out = [(''step'', PyInt (int s)), (''stsb'', PyFloat v)]
                  \<and> model_pt (final out) = Some p))"
proof -
  have u: "\<forall>(st :: ('x, 'o) state) e s v.
            (best_stsb st < v \<longrightarrow>
               best_stsb (update_best e s v st) = v
               \<and> best_step (update_best e s v st) = s + 1
               \<and> model_pt (update_best e s v st) = Some (model st))
          \<and> (\<not> best_stsb st < v \<longrightarrow> update_best e s v st = st)"
    by (simp add: update_best_def)
  from assms obtain s0 tr where
    t: "trace (final out) = Scored 0 0 False s0 # tr" and p: "policy s0 tr"
    and b: "(best_stsb (final out), best_step (final out), model_pt (final out))
        = best_of s0 tr"
    by (rule main_policy)
  from assms have j: "best_metrics_json out =
        [(''step'', PyInt (int (best_step (final out)))),
         (''stsb'', PyFloat (best_stsb (final out)))]"
    by (rule main_Inr)
  have l: "best_stsb (final out) = last (s0 # save_scores tr)"
    using b last_save_scores [of tr]
    by (cases "last_save tr") (auto simp: best_of_def)
  have c: "case last_save tr of
                None \<Rightarrow>
                  best_metrics_json out = [(''step'', PyInt 0), (''stsb'', PyFloat s0)]
                  \<and> model_pt (final out) = None
              | Some (e, s, v, p) \<Rightarrow>
                  best_metrics_json out = [(''step'', PyInt (int s)), (''stsb'', PyFloat v)]
                  \<and> model_pt (final out) = Some p"
    using b j by (auto simp: best_of_def split: option.splits)
  show ?thesis using u t p policy_sorted [OF p] l c by blast
qed

text \<open>
  Claim C10. In a run that completes, if no evaluation returned a score strictly greater
  than the score \<open>s0\<close> of the evaluation that precedes training, then the run made no
  save, the checkpoint file was not written, and the best-metrics record holds step 0
  and the score \<open>s0\<close>.
\<close>

theorem no_improvement_no_checkpoint:
  assumes "main env args f = Inr out"
    and "sts_dev env (encode env args (pretrained env) False 0) = Inr s0"
    and "\<forall>v \<in> set (scores (trace (final out))). \<not> s0 < v"
  shows "save_scores (trace (final out)) = []
     \<and> last_save (trace (final out)) = None
     \<and> model_pt (final out) = None
     \<and> best_metrics_json out = [(''step'', PyInt 0), (''stsb'', PyFloat s0)]"
proof -
  from assms(1) obtain s0' tr where
    s: "sts_dev env (encode env args (pretrained env) False 0) = Inr s0'"
    and t: "trace (final out) = Scored 0 0 False s0' # tr" and p: "policy s0' tr"
    and b: "(best_stsb (final out), best_step (final out), model_pt (final out))
        = best_of s0' tr"
    by (rule main_policy)
  from s assms(2) have e: "s0' = s0" by simp
  from assms(1) have j: "best_metrics_json out =
        [(''step'', PyInt (int (best_step (final out)))),
         (''stsb'', PyFloat (best_stsb (final out)))]"
    by (rule main_Inr)
  have "\<forall>v \<in> set (scores tr). \<not> s0 < v" using assms(3) t by simp
  then have n: "last_save tr = None" using p e policy_no_improvement by blast
  then have "save_scores tr = []" by (simp add: last_save_scores(1) [symmetric])
  then show ?thesis using n b j t e by (simp add: best_of_def)
qed

section \<open>A computed run\<close>

lemma example_dataset:
  "SimCSEDataset isspace example_lines = [''a'', ''b'', ''c'', ''d'', ''e'', ''f'']"
  by (simp add: SimCSEDataset_def example_lines_def strip_def isspace_def)

lemma example_select_first:
  "select_first (map (\<lambda>s. [[q]]) x) = Inr (map (\<lambda>s. [q]) x)"
  by (induction x) (simp_all add: select_first_def)

lemma example_Linear:
  "Linear (Suc 0) [[0]] [0] (map (\<lambda>s. [q]) x) = Inr (map (\<lambda>s. [0]) x)"
  by (induction x) (simp_all add: Linear_def dot_def)

lemma example_forward_mlp:
  "forward (example_model q) t d x True = Inr (map (\<lambda>s. [0]) x)"
  by (simp add: forward_def example_model_def example_select_first example_Linear
      Tanh_def comp_def)

lemma example_forward_raw:
  "forward (example_model q) t d x False = Inr (map (\<lambda>s. [q]) x)"
  by (simp add: forward_def example_model_def example_select_first)

lemma example_score:
  "0 < batch_size args \<Longrightarrow>
   sts_dev (example_env quality) (encode (example_env quality) args (example_model q) t d)
     = Inr q"
proof -
  assume "0 < batch_size args"
  then have "chunked [''probe''] (nat (batch_size args * 8)) = [[''probe'']]"
    unfolding chunked_def by (subst batch_sampler.simps) auto
  then show ?thesis
    by (simp add: example_env_def encode_def example_forward_raw cat_def)
qed

lemma example_loss:
  "batch_size args = int (length x) \<Longrightarrow>
   loss args (map (\<lambda>s. [0]) x) (map (\<lambda>s. [0]) x)
     = Inr ((\<Sum>i<length x. categorical_cross_entropy (replicate (length x) 0) i)
            / real (length x))"
proof -
  assume b: "batch_size args = int (length x)"
  have c: "cosine [0] [0] = 0" by (simp add: cosine_def dot_def)
  have s: "sim_matrix args (map (\<lambda>s. [0]) x) (map (\<lambda>s. [0]) x)
      = Inr (replicate (length x) (replicate (length x) 0))"
    using sim_matrix_pairwise [of "map (\<lambda>s. [0]) x" 1 "map (\<lambda>s. [0]) x" args]
    by (simp add: c map_replicate_const comp_def)
  show ?thesis
    using cross_entropy_arange [of "replicate (length x) (replicate (length x) 0)" "length x"]
    by (simp add: loss_def s labels_def b)
qed

lemma example_env_simps [simp]:
  "tokenizer (example_env quality) ml texts = texts"
  "pretrained (example_env quality) = example_model (quality 0)"
  "optimizer_init (example_env quality) = 0"
  "optimizer_step (example_env quality) opt m d x = (opt + 1, example_model (quality (opt + 1)))"
  "randperm (example_env quality) epoch n = [0..<n]"
  by (simp_all add: example_env_def)

lemma example_args_simps [simp]:
  "batch_size example_args = 2" "epochs example_args = 1"
  "eval_logging_interval example_args = 2" "max_seq_len example_args = 32"
  by (simp_all add: example_args_def)

lemma example_score_args [simp]:
  "sts_dev (example_env quality)
      (encode (example_env quality) example_args (example_model q) t d) = Inr q"
  by (rule example_score) simp

lemma example_loss_args:
  "loss example_args [[0], [0]] [[0], [0]] = Inr example_loss_value"
  using example_loss [of example_args "[''a'', ''b'']"]
  by (simp add: example_loss_value_def lessThan_Suc numeral_2_eq_2)

lemmas run_simps =
  main_def example_dataset DataLoader_def initial_state_def len_loader_def iter_loader_def
  loader_batches_def batch_sampler.simps getitem_def upt_rec enumerate_eq_zip train_step_def
  example_forward_mlp example_loss_args Let_def evaluate_def update_best_def DataFrame_def

lemma example_run:
  "main (example_env rising) example_args example_lines = Inr example_outputs"
  by (simp add: run_simps rising_def example_outputs_def)

lemma flat_run:
  "main (example_env flat) example_args example_lines = Inr flat_outputs"
  by (simp add: run_simps flat_def flat_outputs_def)

lemma example_sampler_ok: "sampler_ok (example_env quality)"
  by (simp add: sampler_ok_def)

section \<open>The claims on the computed run\<close>

theorem evaluation_schedule_witness:
  "main (example_env rising) example_args example_lines = Inr example_outputs
   \<and> sampler_ok (example_env rising)
   \<and> calls (trace (final example_outputs)) = schedule example_args 3
   \<and> schedule example_args 3
       = [EvalCall 0 0 False, UpdateCall 0 1 True, UpdateCall 0 2 True, EvalCall 0 2 False,
          UpdateCall 0 3 True, EvalCall 0 3 False]
   \<and> training (final example_outputs)"
proof -
  have n: "length (SimCSEDataset isspace example_lines) div nat (batch_size example_args) = 3"
    by (simp add: example_dataset)
  have s: "schedule example_args 3
       = [EvalCall 0 0 False, UpdateCall 0 1 True, UpdateCall 0 2 True, EvalCall 0 2 False,
          UpdateCall 0 3 True, EvalCall 0 3 False]"
    by (simp add: schedule_def epoch_calls_def step_calls_def eval_due_def upt_rec)
  from evaluation_schedule [OF example_run example_sampler_ok] n
  have "calls (trace (final example_outputs)) = schedule example_args 3"
    and "training (final example_outputs)" by simp_all
  then show ?thesis using example_run example_sampler_ok s by simp
qed

theorem best_score_policy_witness:
  "main (example_env rising) example_args example_lines = Inr example_outputs
   \<and> trace (final example_outputs)
       = [Scored 0 0 False (1 / 2), Updated 0 1 True, Updated 0 2 True,
          Scored 0 2 False (7 / 10), Saved 0 2 (7 / 10) (example_model (7 / 10)),
          Updated 0 3 True, Scored 0 3 False (7 / 10)]
   \<and> policy (1 / 2) (tl (trace (final example_outputs)))
   \<and> sorted_wrt (<) (1 / 2 # save_scores (tl (trace (final example_outputs))))
   \<and> best_metrics_json example_outputs = [(''step'', PyInt 2), (''stsb'', PyFloat (7 / 10))]
   \<and> model_pt (final example_outputs) = Some (example_model (7 / 10))"
proof -
  have t: "trace (final example_outputs)
       = [Scored 0 0 False (1 / 2), Updated 0 1 True, Updated 0 2 True,
          Scored 0 2 False (7 / 10), Saved 0 2 (7 / 10) (example_model (7 / 10)),
          Updated 0 3 True, Scored 0 3 False (7 / 10)]"
    by (simp add: example_outputs_def)
  from best_score_policy [OF example_run] obtain s0 tr where
    a: "trace (final example_outputs) = Scored 0 0 False s0 # tr"
    and p: "policy s0 tr" and s: "sorted_wrt (<) (s0 # save_scores tr)"
    and c: "case last_save tr of
                None \<Rightarrow>
                  best_metrics_json example_outputs
                    = [(''step'', PyInt 0), (''stsb'', PyFloat s0)]
                  \<and> model_pt (final example_outputs) = None
              | Some (e, s, v, p) \<Rightarrow>
                  best_metrics_json example_outputs
                    = [(''step'', PyInt (int s)), (''stsb'', PyFloat v)]
                  \<and> model_pt (final example_outputs) = Some p"
    by blast
  from a t have s0: "s0 = 1 / 2" and tr: "tr = tl (trace (final example_outputs))"
    by simp_all
  have l: "last_save tr = Some (0, 2, 7 / 10, example_model (7 / 10))"
    using tr t by simp
  from c l have "best_metrics_json example_outputs
        = [(''step'', PyInt 2), (''stsb'', PyFloat (7 / 10))]"
    and "model_pt (final example_outputs) = Some (example_model (7 / 10))" by simp_all
  then show ?thesis using example_run t p s s0 tr by simp
qed

theorem no_improvement_no_checkpoint_witness:
  "main (example_env flat) example_args example_lines = Inr flat_outputs
   \<and> sts_dev (example_env flat)
         (encode (example_env flat) example_args (pretrained (example_env flat)) False 0)
       = Inr (1 / 2)
   \<and> scores (trace (final flat_outputs)) = [1 / 2, 1 / 2, 1 / 2]
   \<and> save_scores (trace (final flat_outputs)) = []
   \<and> model_pt (final flat_outputs) = None
   \<and> best_metrics_json flat_outputs = [(''step'', PyInt 0), (''stsb'', PyFloat (1 / 2))]"
proof -
  have s: "sts_dev (example_env flat)
         (encode (example_env flat) example_args (pretrained (example_env flat)) False 0)
       = Inr (1 / 2)"
    by (simp add: flat_def)
  have v: "scores (trace (final flat_outputs)) = [1 / 2, 1 / 2, 1 / 2]"
    by (simp add: flat_outputs_def)
  have h: "\<forall>v \<in> set (scores (trace (final flat_outputs))). \<not> 1 / 2 < v"
    by (simp add: v)
  from no_improvement_no_checkpoint [OF flat_run s h] show ?thesis
    using flat_run s v by simp
qed

text \<open>
  Claim C8, on the computed run. The first log record holds its score under the key
  \<open>STSB\<close> and the records of the training loop under the key \<open>stsb\<close>: the table has five
  columns, no row has a score in both score columns, and the loss is \<open>None\<close> in the first
  row only.
\<close>

theorem log_table_columns:
  "map_sum id logs_csv (main (example_env rising) example_args example_lines)
     = Inr \<lparr>columns = [''epoch'', ''step'', ''loss'', ''STSB'', ''stsb''],
         rows =
           [[Some (PyInt 0), Some (PyInt 0), Some PyNone, Some (PyFloat (1 / 2)), None],
            [Some (PyInt 0), Some (PyInt 2), Some (PyFloat example_loss_value), None,
             Some (PyFloat (7 / 10))],
            [Some (PyInt 0), Some (PyInt 3), Some (PyFloat example_loss_value), None,
             Some (PyFloat (7 / 10))]]\<rparr>"
  by (simp add: example_run example_outputs_def)

section \<open>The labels and the size of a batch\<close>

lemma batch_sampler_keep_last:
  "0 < B \<Longrightarrow> length xs mod B \<noteq> 0 \<Longrightarrow>
   batch_sampler B False xs \<noteq> []
   \<and> length (last (batch_sampler B False xs)) = length xs mod B"
proof (induction xs rule: length_induct)
  case (1 xs)
  from 1(3) have ne: "xs \<noteq> []" by auto
  show ?case
  proof (cases "length xs < B")
    case True
    then have "batch_sampler B False xs = [xs]"
      using ne 1(2) by (subst batch_sampler.simps) simp
    then show ?thesis using True by simp
  next
    case False
    then have le: "B \<le> length xs" by simp
    have lt: "length (drop B xs) < length xs" using le 1(2) by simp
    have m: "length (drop B xs) mod B = length xs mod B"
      using le by (simp add: le_mod_geq)
    from 1(1) lt 1(2) 1(3) m
    have ih: "batch_sampler B False (drop B xs) \<noteq> []
        \<and> length (last (batch_sampler B False (drop B xs))) = length (drop B xs) mod B"
      by (metis (no_types))
    then show ?thesis using le 1(2) m by (simp add: batch_sampler_big)
  qed
qed

lemma loss_mismatch:
  assumes "length e1 \<noteq> nat (batch_size args)"
    and "\<And>r. r \<in> set e1 \<Longrightarrow> length r = W" and "\<And>r. r \<in> set e2 \<Longrightarrow> length r = W"
  shows "loss args e1 e2 = Inl ValueError_target_size"
  using assms(1) sim_matrix_pairwise [of e1 W e2 args] assms(2,3)
  by (simp add: loss_def labels_def cross_entropy_mismatch)

lemma loss_full_batch:
  assumes "length e1 = nat (batch_size args)" and "length e2 = nat (batch_size args)"
    and "\<And>r. r \<in> set e1 \<Longrightarrow> length r = W" and "\<And>r. r \<in> set e2 \<Longrightarrow> length r = W"
  shows "\<exists>l. loss args e1 e2 = Inr l"
proof -
  let ?S = "map (\<lambda>r. map (\<lambda>c. cosine r c / temperature args) e2) e1"
  have s: "sim_matrix args e1 e2 = Inr ?S"
    by (rule sim_matrix_pairwise [of e1 W e2]) (use assms in auto)
  have "cross_entropy ?S (arange (int (nat (batch_size args)))) =
      Inr ((\<Sum>i<nat (batch_size args). categorical_cross_entropy (?S ! i) i)
           / real (nat (batch_size args)))"
    by (rule cross_entropy_arange) (use assms in auto)
  moreover have "arange (int (nat (batch_size args))) = arange (batch_size args)"
    by (simp add: arange_def)
  ultimately show ?thesis by (simp add: loss_def s labels_def)
qed

section \<open>Runs that complete\<close>

lemma forward_raw_ok:
  assumes "encoder_ok env m"
  shows "forward m t d (tokenizer env ml texts) False
     = Inr (map (\<lambda>s. s ! 0) (backbone m t d (tokenizer env ml texts)))"
proof -
  have "select_first (backbone m t d (tokenizer env ml texts))
      = Inr (map (\<lambda>s. s ! 0) (backbone m t d (tokenizer env ml texts)))"
    by (rule select_first_Inr) (use assms in \<open>auto simp: encoder_ok_def\<close>)
  then show ?thesis by (simp add: forward_def)
qed

lemma forward_mlp_ok:
  assumes "encoder_ok env m"
  shows "\<exists>e. forward m t d (tokenizer env ml texts) True = Inr e
     \<and> length e = length texts \<and> (\<forall>r \<in> set e. length r = hidden_size m)"
proof -
  let ?h = "backbone m t d (tokenizer env ml texts)"
  have p: "select_first ?h = Inr (map (\<lambda>s. s ! 0) ?h)"
    by (rule select_first_Inr) (use assms in \<open>auto simp: encoder_ok_def\<close>)
  have l: "Linear (hidden_size m) (dense_weight m) (dense_bias m) (map (\<lambda>s. s ! 0) ?h)
      = Inr (map (\<lambda>r. map2 (\<lambda>w c. dot w r + c) (dense_weight m) (dense_bias m))
               (map (\<lambda>s. s ! 0) ?h))"
    by (rule Linear_Inr) (use assms in \<open>auto simp: encoder_ok_def\<close>)
  have n: "length ?h = length texts" using assms by (simp add: encoder_ok_def)
  have d: "dense_shape m" using assms by (simp add: encoder_ok_def)
  show ?thesis
    using n d by (auto simp: forward_def p l Tanh_def dense_shape_def)
qed

lemma chunked_concat: "0 < n \<Longrightarrow> concat (chunked xs n) = xs"
  unfolding chunked_def
proof (induction xs rule: length_induct)
  case (1 xs)
  show ?case
  proof (cases "length xs < n")
    case True
    then show ?thesis using 1(2) by (subst batch_sampler.simps) auto
  next
    case False
    then have le: "n \<le> length xs" by simp
    have "length (drop n xs) < length xs" using le 1(2) by simp
    then have "concat (batch_sampler n False (drop n xs)) = drop n xs"
      using 1 by blast
    then show ?thesis using le 1(2) by (simp add: batch_sampler_big)
  qed
qed

lemma encode_ok:
  assumes "encoder_ok env m" and "0 < batch_size args" and "texts \<noteq> []"
  shows "\<exists>e. encode env args m t d texts = Inr e \<and> length e = length texts"
proof -
  let ?n = "nat (batch_size args * 8)"
  let ?g = "\<lambda>text. map (\<lambda>s. s ! 0) (backbone m t d (tokenizer env None text))"
  have pos: "0 < ?n" using assms(2) by simp
  have c: "concat (chunked texts ?n) = texts" using pos by (rule chunked_concat)
  have tr: "traverse (\<lambda>text. forward m t d (tokenizer env None text) False) (chunked texts ?n)
      = Inr (map ?g (chunked texts ?n))"
    by (rule traverse_Inr) (simp add: forward_raw_ok [OF assms(1)])
  have ne: "map ?g (chunked texts ?n) \<noteq> []" using c assms(3) by auto
  have w: "\<forall>r \<in> set (concat (map ?g (chunked texts ?n))). length r = hidden_size m"
    using assms(1) by (auto simp: encoder_ok_def)
  have u: "list_all (\<lambda>r. length r = length (hd (concat (map ?g (chunked texts ?n)))))
              (concat (map ?g (chunked texts ?n)))"
  proof -
    define X where "X = concat (map ?g (chunked texts ?n))"
    have wx: "\<forall>r \<in> set X. length r = hidden_size m" using w by (simp add: X_def)
    have "list_all (\<lambda>r. length r = length (hd X)) X"
    proof (cases "X = []")
      case True
      then show ?thesis by simp
    next
      case False
      then have "hd X \<in> set X" by (rule hd_in_set)
      then have "length (hd X) = hidden_size m" using wx by blast
      then show ?thesis using wx by (simp add: list_all_iff)
    qed
    then show ?thesis by (simp add: X_def)
  qed
  have len: "length (concat (map ?g (chunked texts ?n))) = length texts"
  proof -
    have "length (?g tx) = length tx" for tx
      using assms(1) by (simp add: encoder_ok_def)
    then have "map length (map ?g (chunked texts ?n)) = map length (chunked texts ?n)"
      by simp
    then have "length (concat (map ?g (chunked texts ?n))) = length (concat (chunked texts ?n))"
      by (simp only: length_concat)
    then show ?thesis using c by simp
  qed
  show ?thesis
    using ne u len by (simp add: encode_def tr cat_def)
qed

lemma scorer_ok:
  assumes "env_ok env" and "encoder_ok env m" and "0 < batch_size args"
  shows "\<exists>v. sts_dev env (encode env args m t d) = Inr v"
  using assms(1) encode_ok [OF assms(2,3)] unfolding env_ok_def by blast

lemma evaluate_ok:
  assumes "env_ok env" and "encoder_ok env (model st)" and "0 < batch_size args"
  shows "\<exists>st'. evaluate env args epoch step l st = Inr st' \<and> model st' = model st"
proof -
  from scorer_ok [OF assms] obtain v where
    "sts_dev env (encode env args (model st) False (draws st)) = Inr v" by blast
  then show ?thesis by (simp add: evaluate_def Let_def)
qed

lemma train_step_ok:
  assumes "env_ok env" and "encoder_ok env (model st)" and "0 < batch_size args"
    and "eval_logging_interval args \<noteq> 0"
    and "batch = tokenizer env ml b" and "length b = nat (batch_size args)"
  shows "\<exists>st'. train_step env args n epoch st step batch = Inr st'
     \<and> encoder_ok env (model st')"
proof -
  from forward_mlp_ok [OF assms(2)] assms(5) obtain e1 where
    f1: "forward (model st) (training st) (draws st) batch True = Inr e1"
    and n1: "length e1 = length b" and w1: "\<forall>r \<in> set e1. length r = hidden_size (model st)"
    by blast
  from forward_mlp_ok [OF assms(2)] assms(5) obtain e2 where
    f2: "forward (model st) (training st) (draws st + 1) batch True = Inr e2"
    and n2: "length e2 = length b" and w2: "\<forall>r \<in> set e2. length r = hidden_size (model st)"
    by blast
  from loss_full_batch [of e1 args e2 "hidden_size (model st)"] n1 n2 w1 w2 assms(6)
  obtain l where l: "loss args e1 e2 = Inr l" by auto
  obtain opt m where om: "optimizer_step env (optimizer st) (model st) (draws st) batch = (opt, m)"
    by (cases "optimizer_step env (optimizer st) (model st) (draws st) batch")
  have m: "encoder_ok env m"
    using assms(1,2) om unfolding env_ok_def by (metis snd_conv)
  define st1 where "st1 = st\<lparr>model := m, optimizer := opt, draws := draws st + 2,
      trace := trace st @ [Updated epoch (step + 1) (training st)]\<rparr>"
  have m1: "encoder_ok env (model st1)" using m by (simp add: st1_def)
  from evaluate_ok [OF assms(1) m1 assms(3)] obtain st2 where
    e: "evaluate env args epoch step l st1 = Inr st2" and m2: "model st2 = model st1"
    by blast
  show ?thesis
  proof (cases "(int step + 1) mod eval_logging_interval args = 0 \<or> step + 1 = n")
    case True
    then have "train_step env args n epoch st step batch = Inr st2"
      using f1 f2 l om e assms(4) unfolding train_step_def st1_def by simp
    then show ?thesis using m1 m2 by simp
  next
    case False
    then have "train_step env args n epoch st step batch = Inr st1"
      using f1 f2 l om assms(4) unfolding train_step_def st1_def by simp
    then show ?thesis using m1 by simp
  qed
qed

lemma run_steps_ok:
  assumes "env_ok env" and "0 < batch_size args" and "eval_logging_interval args \<noteq> 0"
    and "\<forall>(step, batch) \<in> set its. \<exists>b. batch = tokenizer env ml b
            \<and> length b = nat (batch_size args)"
    and "encoder_ok env (model st)"
  shows "\<exists>st'. run_steps env args n epoch st its = Inr st' \<and> encoder_ok env (model st')"
  using assms(4,5)
proof (induction its arbitrary: st)
  case Nil
  then show ?case by simp
next
  case (Cons it its)
  obtain step batch where it: "it = (step, batch)" by (cases it)
  from Cons.prems(1) it obtain b where
    b: "batch = tokenizer env ml b" "length b = nat (batch_size args)" by auto
  from train_step_ok [OF assms(1) Cons.prems(2) assms(2,3) b] obtain st1 where
    s: "train_step env args n epoch st step batch = Inr st1" and m: "encoder_ok env (model st1)"
    by blast
  from Cons.IH [OF _ m] Cons.prems(1) obtain st' where
    "run_steps env args n epoch st1 its = Inr st'" "encoder_ok env (model st')" by auto
  then show ?case using s it by auto
qed

lemma iter_loader_ok:
  assumes "sampler_ok env" and "drop_last ld" and "0 < dl_batch_size ld"
    and "collate_fn ld = tokenizer env ml"
  shows "\<exists>batches. iter_loader ld (randperm env epoch (length (dataset ld))) = Inr batches
     \<and> (\<forall>(step, batch) \<in> set (enumerate 0 batches).
           \<exists>b. batch = tokenizer env ml b \<and> length b = dl_batch_size ld)"
proof -
  let ?perm = "randperm env epoch (length (dataset ld))"
  have p: "mset ?perm = mset [0..<length (dataset ld)]"
    using assms(1) by (simp add: sampler_ok_def)
  have r: "\<And>i. i \<in> set ?perm \<Longrightarrow> i < length (dataset ld)"
    using perm_in_range [OF p] .
  let ?bs = "map (map (\<lambda>i. dataset ld ! i)) (batch_sampler (dl_batch_size ld) True ?perm)"
  have b: "loader_batches ld ?perm = Inr ?bs"
    using loader_batches_Inr [OF r] assms(2) by simp
  have full: "\<forall>b \<in> set ?bs. length b = dl_batch_size ld"
    using assms(3) by (auto simp: batch_sampler_full)
  have i: "iter_loader ld ?perm = Inr (map (tokenizer env ml) ?bs)"
    using b assms(4) by (simp add: iter_loader_def)
  have "\<forall>(step, batch) \<in> set (enumerate 0 (map (tokenizer env ml) ?bs)).
           \<exists>b. batch = tokenizer env ml b \<and> length b = dl_batch_size ld"
    using full by (auto simp: in_set_enumerate_eq)
  then show ?thesis using i by blast
qed

lemma run_epochs_ok:
  assumes "env_ok env" and "0 < batch_size args" and "eval_logging_interval args \<noteq> 0"
    and "drop_last ld" and "dl_batch_size ld = nat (batch_size args)"
    and "collate_fn ld = tokenizer env ml"
    and "encoder_ok env (model st)"
  shows "\<exists>st'. run_epochs env args ld st es = Inr st'"
  using assms(7)
proof (induction es arbitrary: st)
  case Nil
  then show ?case by simp
next
  case (Cons epoch es)
  have s: "sampler_ok env" using assms(1) by (simp add: env_ok_def)
  have pos: "0 < dl_batch_size ld" using assms(2,5) by simp
  from iter_loader_ok [OF s assms(4) pos assms(6), of epoch] obtain batches where
    i: "iter_loader ld (randperm env epoch (length (dataset ld))) = Inr batches"
    and f: "\<forall>(step, batch) \<in> set (enumerate 0 batches).
           \<exists>b. batch = tokenizer env ml b \<and> length b = nat (batch_size args)"
    using assms(5) by auto
  have m: "encoder_ok env (model (st\<lparr>training := True\<rparr>))" using Cons.prems by simp
  from run_steps_ok [OF assms(1,2,3) f m] obtain st1 where
    r: "run_steps env args (len_loader ld) epoch (st\<lparr>training := True\<rparr>)
          (enumerate 0 batches) = Inr st1"
    and m1: "encoder_ok env (model st1)" by blast
  from Cons.IH [OF m1] obtain st' where "run_epochs env args ld st1 es = Inr st'" by blast
  then show ?case using i r by simp
qed

lemma main_completes:
  assumes "env_ok env" and "SimCSEDataset isspace f \<noteq> []" and "0 < batch_size args"
    and "eval_logging_interval args \<noteq> 0"
  shows "\<exists>out. main env args f = Inr out"
proof -
  let ?ld = "\<lparr>dataset = SimCSEDataset isspace f,
      collate_fn = tokenizer env (Some (max_seq_len args)),
      dl_batch_size = nat (batch_size args), drop_last = True\<rparr>"
  have d: "DataLoader (SimCSEDataset isspace f) (tokenizer env (Some (max_seq_len args)))
        (batch_size args) True = Inr ?ld"
    using assms(2,3) by (simp add: DataLoader_def)
  have e: "encoder_ok env (pretrained env)" using assms(1) by (simp add: env_ok_def)
  from scorer_ok [OF assms(1) e assms(3)] obtain best where
    b: "sts_dev env (encode env args (pretrained env) False 0) = Inr best" by blast
  have m: "encoder_ok env (model (initial_state env best))"
    using e by (simp add: initial_state_def)
  from run_epochs_ok [OF assms(1,3,4) _ _ _ m, of ?ld "Some (max_seq_len args)"]
  obtain st where "run_epochs env args ?ld (initial_state env best) [0..<nat (epochs args)]
      = Inr st" by auto
  then show ?thesis using d b by (simp add: main_def)
qed

lemma example_env_ok: "env_ok (example_env quality)"
proof -
  have e: "encoder_ok (example_env quality) (example_model q)" for q
    by (simp add: encoder_ok_def dense_shape_def example_model_def)
  have s: "\<exists>v. sts_dev (example_env quality) enc = Inr v"
    if "\<forall>texts. texts \<noteq> [] \<longrightarrow> (\<exists>e. enc texts = Inr e \<and> length e = length texts)"
    for enc
  proof -
    from that obtain e where "enc [''probe''] = Inr e" and "length e = 1" by force
    then show ?thesis by (cases e) (simp_all add: example_env_def)
  qed
  show ?thesis
    unfolding env_ok_def using e s example_sampler_ok by simp
qed

text \<open>
  Claim C9. The labels are the numbers below the configured batch size, whatever the
  batch. With \<open>drop_last\<close> every batch the loader yields has exactly that many samples,
  and for embeddings with one row for each sample of such a batch the loss is computed.
  For embeddings with any other number of rows the loss fails with the size mismatch
  of inputs and labels; and without \<open>drop_last\<close> a dataset whose size is not a multiple
  of the batch size would end every epoch with a batch of another size. In a
  well-formed environment the run on such a loader, with an evaluation interval that is
  not 0, completes: no step fails.
\<close>

theorem labels_fixed_by_configuration:
  assumes "DataLoader data collate (batch_size args) True = Inr ld"
    and "mset perm = mset [0..<length data]"
  shows "labels args = [0..<nat (batch_size args)]
     \<and> (\<exists>bs. loader_batches ld perm = Inr bs
          \<and> (\<forall>b \<in> set bs. length b = nat (batch_size args)
                \<and> (\<forall>emb1 emb2 W.
                      length emb1 = length b \<and> length emb2 = length b
                      \<and> (\<forall>r \<in> set emb1. length r = W) \<and> (\<forall>r \<in> set emb2. length r = W)
                      \<longrightarrow> (\<exists>l. loss args emb1 emb2 = Inr l))))
     \<and> (\<forall>emb1 emb2 W.
            length emb1 \<noteq> nat (batch_size args)
            \<and> (\<forall>r \<in> set emb1. length r = W) \<and> (\<forall>r \<in> set emb2. length r = W)
            \<longrightarrow> loss args emb1 emb2 = Inl ValueError_target_size)
     \<and> (length data mod nat (batch_size args) \<noteq> 0 \<longrightarrow>
            batch_sampler (nat (batch_size args)) False perm \<noteq> []
            \<and> length (last (batch_sampler (nat (batch_size args)) False perm))
                \<noteq> nat (batch_size args))
     \<and> (env_ok env \<and> SimCSEDataset isspace f = data \<and> eval_logging_interval args \<noteq> 0
          \<longrightarrow> (\<exists>out. main env args f = Inr out))"
proof -
  note ld = DataLoader_Inr [OF assms(1)]
  let ?B = "nat (batch_size args)"
  have pos: "0 < ?B" using ld(5) by simp
  have n: "length perm = length data"
    using assms(2) by (metis length_upt mset_eq_length minus_nat.diff_0)
  have r: "\<And>i. i \<in> set perm \<Longrightarrow> i < length (dataset ld)"
    using perm_in_range [OF assms(2)] ld(1) by simp
  define bs where "bs = map (map (\<lambda>i. dataset ld ! i)) (batch_sampler ?B True perm)"
  have b: "loader_batches ld perm = Inr bs"
    using loader_batches_Inr [OF r] ld(2,4) by (simp add: bs_def)
  have full: "\<forall>b \<in> set bs. length b = ?B"
    using pos by (auto simp: bs_def batch_sampler_full)
  have ok: "\<forall>b \<in> set bs. length b = ?B
                \<and> (\<forall>emb1 emb2 W.
                      length emb1 = length b \<and> length emb2 = length b
                      \<and> (\<forall>r \<in> set emb1. length r = W) \<and> (\<forall>r \<in> set emb2. length r = W)
                      \<longrightarrow> (\<exists>l. loss args emb1 emb2 = Inr l))"
    using full loss_full_batch by (metis (no_types))
  have bad: "\<forall>emb1 emb2 W.
            length emb1 \<noteq> ?B
            \<and> (\<forall>r \<in> set emb1. length r = W) \<and> (\<forall>r \<in> set emb2. length r = W)
            \<longrightarrow> loss args emb1 emb2 = Inl ValueError_target_size"
    using loss_mismatch by (metis (no_types))
  have short: "length data mod ?B \<noteq> 0 \<longrightarrow>
            batch_sampler ?B False perm \<noteq> []
            \<and> length (last (batch_sampler ?B False perm)) \<noteq> ?B"
  proof
    assume m: "length data mod ?B \<noteq> 0"
    then have "batch_sampler ?B False perm \<noteq> []
        \<and> length (last (batch_sampler ?B False perm)) = length perm mod ?B"
      using batch_sampler_keep_last [OF pos, of perm] n by simp
    moreover have "length perm mod ?B < ?B" using pos by simp
    ultimately show "batch_sampler ?B False perm \<noteq> []
            \<and> length (last (batch_sampler ?B False perm)) \<noteq> ?B" by simp
  qed
  have l: "labels args = [0..<?B]" by (simp add: labels_def arange_def)
  have run: "env_ok env \<and> SimCSEDataset isspace f = data \<and> eval_logging_interval args \<noteq> 0
          \<longrightarrow> (\<exists>out. main env args f = Inr out)"
    using main_completes [of env f args] ld(5,6) by blast
  show ?thesis using l b ok bad short run by blast
qed


theorem labels_fixed_by_configuration_witness:
  "DataLoader [''a'', ''b'', ''c'', ''d'', ''e''] id (batch_size example_args) True
       = Inr \<lparr>dataset = [''a'', ''b'', ''c'', ''d'', ''e''], collate_fn = id,
              dl_batch_size = 2, drop_last = True\<rparr>
   \<and> mset [3, 0, 4, 1, 2] = mset [0..<length [''a'', ''b'', ''c'', ''d'', ''e'']]
   \<and> labels example_args = [0, 1]
   \<and> loss example_args [[0], [0]] [[0], [0]] = Inr example_loss_value
   \<and> loss example_args [[0]] [[0]] = Inl ValueError_target_size
   \<and> length (last (batch_sampler 2 False [3, 0, 4, 1, 2::nat])) = 1
   \<and> env_ok (example_env rising)
   \<and> SimCSEDataset isspace [''a'', ''b'', ''c'', ''d'', ''e''] = [''a'', ''b'', ''c'', ''d'', ''e'']
   \<and> (\<exists>out. main (example_env rising) example_args [''a'', ''b'', ''c'', ''d'', ''e'']
          = Inr out)"
proof -
  have d: "DataLoader [''a'', ''b'', ''c'', ''d'', ''e''] id (batch_size example_args) True
       = Inr \<lparr>dataset = [''a'', ''b'', ''c'', ''d'', ''e''], collate_fn = id,
              dl_batch_size = 2, drop_last = True\<rparr>"
    by (simp add: DataLoader_def)
  have p: "mset [3, 0, 4, 1, 2] = mset [0..<length [''a'', ''b'', ''c'', ''d'', ''e'']]"
    by (simp add: upt_rec eval_nat_numeral)
  note t = labels_fixed_by_configuration [OF d p,
      where env = "example_env rising" and f = "[''a'', ''b'', ''c'', ''d'', ''e'']"]
  from t have l: "labels example_args = [0, 1]"
    by (simp add: upt_rec)
  from t have "\<forall>emb1 emb2 W.
            length emb1 \<noteq> nat (batch_size example_args)
            \<and> (\<forall>r \<in> set emb1. length r = W) \<and> (\<forall>r \<in> set emb2. length r = W)
            \<longrightarrow> loss example_args emb1 emb2 = Inl ValueError_target_size"
    by blast
  from this [rule_format, of "[[0]]" 1 "[[0]]"]
  have m: "loss example_args [[0]] [[0]] = Inl ValueError_target_size" by simp
  have s: "length (last (batch_sampler 2 False [3, 0, 4, 1, 2::nat])) = 1"
    by (simp add: batch_sampler.simps)
  have f: "SimCSEDataset isspace [''a'', ''b'', ''c'', ''d'', ''e'']
      = [''a'', ''b'', ''c'', ''d'', ''e'']"
    by (simp add: SimCSEDataset_def strip_def isspace_def)
  from t f example_env_ok [of rising]
  have r: "\<exists>out. main (example_env rising) example_args [''a'', ''b'', ''c'', ''d'', ''e'']
          = Inr out"
    by simp
  show ?thesis using d p l m s f r example_loss_args example_env_ok [of rising] by simp
qed

section \<open>The batch size and validation\<close>

text \<open>
  Claim C3, as the script has it. The script has no validation of its own; the only
  check of the batch size is the one of the batch sampler, when the loader is
  constructed: a batch size below 1 ends the run there, before the first evaluation and
  before any training step. A batch size of 1 passes it, and in a well-formed
  environment the run on a dataset that is not empty, with an evaluation interval that
  is not 0, completes.
\<close>

theorem batch_size_below_one_rejected:
  "(batch_size args < 1 \<longrightarrow>
      main env args f =
        Inl (if SimCSEDataset isspace f = [] then ValueError_num_samples
             else ValueError_batch_size))
   \<and> (batch_size args = 1 \<and> env_ok env \<and> SimCSEDataset isspace f \<noteq> []
        \<and> eval_logging_interval args \<noteq> 0 \<longrightarrow>
      (\<exists>out. main env args f = Inr out))"
proof -
  have a: "batch_size args < 1 \<longrightarrow>
      main env args f =
        Inl (if SimCSEDataset isspace f = [] then ValueError_num_samples
             else ValueError_batch_size)"
    by (simp add: main_def DataLoader_def)
  have b: "batch_size args = 1 \<and> env_ok env \<and> SimCSEDataset isspace f \<noteq> []
        \<and> eval_logging_interval args \<noteq> 0 \<longrightarrow>
      (\<exists>out. main env args f = Inr out)"
    using main_completes [of env f args] by simp
  show ?thesis using a b by blast
qed

theorem batch_size_below_one_rejected_witness:
  "batch_size (example_args\<lparr>batch_size := 0\<rparr>) < 1
   \<and> main (example_env rising) (example_args\<lparr>batch_size := 0\<rparr>) example_lines
       = Inl ValueError_batch_size
   \<and> batch_size (example_args\<lparr>batch_size := 1\<rparr>) = 1
   \<and> env_ok (example_env rising)
   \<and> SimCSEDataset isspace example_lines \<noteq> []
   \<and> eval_logging_interval (example_args\<lparr>batch_size := 1\<rparr>) \<noteq> 0
   \<and> (\<exists>out. main (example_env rising) (example_args\<lparr>batch_size := 1\<rparr>) example_lines
          = Inr out)"
proof -
  have h: "batch_size (example_args\<lparr>batch_size := 0\<rparr>) < 1" by simp
  have k: "batch_size (example_args\<lparr>batch_size := 1\<rparr>) = 1"
    "SimCSEDataset isspace example_lines \<noteq> []"
    "eval_logging_interval (example_args\<lparr>batch_size := 1\<rparr>) \<noteq> 0"
    by (simp_all add: example_dataset)
  from batch_size_below_one_rejected
    [of "example_args\<lparr>batch_size := 0\<rparr>" "example_env rising" example_lines] h
  have a: "main (example_env rising) (example_args\<lparr>batch_size := 0\<rparr>) example_lines
       = Inl ValueError_batch_size"
    by (simp add: example_dataset)
  from batch_size_below_one_rejected
    [of "example_args\<lparr>batch_size := 1\<rparr>" "example_env rising" example_lines]
    k example_env_ok [of rising]
  have b: "\<exists>out. main (example_env rising) (example_args\<lparr>batch_size := 1\<rparr>) example_lines
          = Inr out"
    by blast
  show ?thesis using h k a b example_env_ok [of rising] by blast
qed

text \<open>
  A batch size of 1 is not rejected: the run on one sample makes its update and its
  evaluations.
\<close>

lemma single_loss:
  "loss (example_args\<lparr>batch_size := 1\<rparr>) [[0]] [[0]]
     = Inr (categorical_cross_entropy [0] 0)"
  using example_loss [of "example_args\<lparr>batch_size := 1\<rparr>" "[''a'']"]
  by simp

theorem batch_size_one_accepted:
  "map_sum id (\<lambda>out. calls (trace (final out)))
      (main (example_env rising) (example_args\<lparr>batch_size := 1\<rparr>) [''a''])
     = Inr [EvalCall 0 0 False, UpdateCall 0 1 True, EvalCall 0 1 False]"
proof -
  have d: "SimCSEDataset isspace [''a''] = [''a'']"
    by (simp add: SimCSEDataset_def strip_def isspace_def)
  have s: "sts_dev (example_env rising)
      (encode (example_env rising) (example_args\<lparr>batch_size := 1\<rparr>) (example_model q) t k)
       = Inr q" for q t k
    by (rule example_score) simp
  show ?thesis
    by (simp add: main_def d DataLoader_def initial_state_def len_loader_def iter_loader_def
        loader_batches_def batch_sampler.simps getitem_def upt_rec enumerate_eq_zip
        train_step_def example_forward_mlp single_loss Let_def evaluate_def update_best_def
        s rising_def)
qed

end
